theory Spec2Isabelle
  imports Complex_Main "HOL-Library.Char_ord" "HOL-Library.Sublist"
begin

section \<open>Parameter mapper (src/parameterMapper.ts)\<close>

text \<open>
  A JavaScript string is a sequence of code units; the placeholder pattern
  \<^verbatim>\<open>/(?<!:):([a-zA-Z_][a-zA-Z0-9_]*)/g\<close> only distinguishes the colon, the ASCII
  letters, the digits and the underscore, so a string is modelled as a \<^typ>\<open>string\<close> whose
  characters stand for the code units.
\<close>

definition isIdentStart :: "char \<Rightarrow> bool" where
  "isIdentStart c \<longleftrightarrow>
     (CHR ''a'' \<le> c \<and> c \<le> CHR ''z'') \<or> (CHR ''A'' \<le> c \<and> c \<le> CHR ''Z'') \<or> c = CHR ''_''"

definition isIdentChar :: "char \<Rightarrow> bool" where
  "isIdentChar c \<longleftrightarrow>
     (CHR ''a'' \<le> c \<and> c \<le> CHR ''z'') \<or> (CHR ''A'' \<le> c \<and> c \<le> CHR ''Z'') \<or>
     (CHR ''0'' \<le> c \<and> c \<le> CHR ''9'') \<or> c = CHR ''_''"

text \<open>
  The successive matches of the global pattern over the input, left to right, together with
  the text between them. \<open>Match n\<close> is one match whose capture group 1 is \<open>n\<close>; \<open>Text c\<close>
  is a code unit outside every match. The first argument is the code unit before the current
  position (\<open>None\<close> at the start of the input), which the lookbehind \<^verbatim>\<open>(?<!:)\<close> inspects.
\<close>

datatype segment = Text char | Match string

function namedParamRegex :: "char option \<Rightarrow> string \<Rightarrow> segment list" where
  "namedParamRegex prev [] = []"
| "namedParamRegex prev [c] = [Text c]"
| "namedParamRegex prev (c # d # ds) =
     (if prev \<noteq> Some CHR '':'' \<and> c = CHR '':'' \<and> isIdentStart d
      then Match (d # takeWhile isIdentChar ds)
             # namedParamRegex (Some (last (d # takeWhile isIdentChar ds))) (dropWhile isIdentChar ds)
      else Text c # namedParamRegex (Some c) (d # ds))"
  by pat_completeness auto
termination
  by (relation "measure (\<lambda>(prev, s). length s)")
     (auto simp: le_imp_less_Suc length_dropWhile_le less_SucI)

text \<open>\<^verbatim>\<open>String(position)\<close> for a non-negative integer: its decimal digits.\<close>

definition digitChar :: "nat \<Rightarrow> char" where
  "digitChar d = ''0123456789'' ! d"

function String_of_nat :: "nat \<Rightarrow> string" where
  "String_of_nat n = (if n < 10 then [digitChar n] else String_of_nat (n div 10) @ [digitChar (n mod 10)])"
  by pat_completeness auto
termination
  by (relation "measure id") auto

declare String_of_nat.simps [simp del]

record ParameterMapping =
  sql :: string
  parameterOrder :: "string list"

text \<open>
  The mutable locals of \<open>parseNamedParameters\<close>: \<open>paramMap\<close> (a \<open>Map<string, number>\<close>) and
  \<open>parameterOrder\<close> (a \<open>string[]\<close>).
\<close>

record parseState =
  paramMap :: "string \<rightharpoonup> nat"
  order :: "string list"

text \<open>
  The replacer callback: it registers an unseen name at position
  \<open>parameterOrder.length + 1\<close>, then returns \<^verbatim>\<open>`$${String(paramMap.get(paramName))}`\<close>.
\<close>

definition replacer :: "string \<Rightarrow> parseState \<Rightarrow> string \<times> parseState" where
  "replacer paramName st =
     (let st' = (if paramMap st paramName = None
                 then st\<lparr>paramMap := (paramMap st)(paramName \<mapsto> length (order st) + 1),
                         order := order st @ [paramName]\<rparr>
                 else st)
      in (case paramMap st' paramName of
            Some position \<Rightarrow> (CHR ''$'' # String_of_nat position, st')
          | None \<Rightarrow> (''$undefined'', st')))"

text \<open>\<open>String.prototype.replace\<close> with the global pattern and the callback.\<close>

fun replace :: "segment list \<Rightarrow> parseState \<Rightarrow> string \<times> parseState" where
  "replace [] st = ([], st)"
| "replace (Text c # segs) st = (let (out, st') = replace segs st in (c # out, st'))"
| "replace (Match paramName # segs) st =
     (let (r, st1) = replacer paramName st;
          (out, st2) = replace segs st1
      in (r @ out, st2))"

definition parseNamedParameters :: "string \<Rightarrow> ParameterMapping" where
  "parseNamedParameters sqlWithNamedParams =
     (let (out, st) = replace (namedParamRegex None sqlWithNamedParams)
                        \<lparr>paramMap = Map.empty, order = []\<rparr>
      in \<lparr>sql = out, parameterOrder = order st\<rparr>)"

text \<open>
  \<open>matchAll\<close> yields the same matches; \<open>m[1]\<close> is the capture group. \<open>new Set(...)\<close> spread
  back into an array keeps the first occurrence of each element, in insertion order.
\<close>

definition matchAll :: "string \<Rightarrow> string list" where
  "matchAll s = [n. Match n \<leftarrow> namedParamRegex None s]"

definition Set_spread :: "'a list \<Rightarrow> 'a list" where
  "Set_spread xs = fold (\<lambda>x acc. if x \<in> set acc then acc else acc @ [x]) xs []"

definition extractNamedParameters :: "string \<Rightarrow> string list" where
  "extractNamedParameters s = Set_spread (matchAll s)"

subsection \<open>Reference notions for the mapper's contract\<close>

text \<open>The 1-based position of the first occurrence of \<open>n\<close> in \<open>xs\<close>.\<close>

definition position :: "'a \<Rightarrow> 'a list \<Rightarrow> nat" where
  "position n xs = Suc (length (takeWhile (\<lambda>m. m \<noteq> n) xs))"

text \<open>The distinct elements of a list, each at the place of its first occurrence.\<close>

primrec firstOccurrences :: "'a list \<Rightarrow> 'a list" where
  "firstOccurrences [] = []"
| "firstOccurrences (x # xs) = x # removeAll x (firstOccurrences xs)"

text \<open>What one segment of the input becomes, given the final parameter order.\<close>

fun rewriteSegment :: "string list \<Rightarrow> segment \<Rightarrow> string" where
  "rewriteSegment names (Text c) = [c]"
| "rewriteSegment names (Match n) = CHR ''$'' # String_of_nat (position n names)"

definition rewriteAll :: "string list \<Rightarrow> segment list \<Rightarrow> string" where
  "rewriteAll names segs = concat (map (rewriteSegment names) segs)"

fun segmentSource :: "segment \<Rightarrow> string" where
  "segmentSource (Text c) = [c]"
| "segmentSource (Match n) = CHR '':'' # n"

definition isIdentifier :: "string \<Rightarrow> bool" where
  "isIdentifier xs \<longleftrightarrow> (case xs of [] \<Rightarrow> False | d # ds \<Rightarrow> isIdentStart d \<and> list_all isIdentChar ds)"

text \<open>
  Which substrings of an SQL text are placeholder occurrences, said without the pattern: a
  placeholder starts at offset \<open>i\<close> when the code unit there is a colon, the code unit before
  it (if any) is not a colon, and the code unit after it is a letter or the underscore; its
  name is the longest run of letters, digits and underscores that follows the colon.
  \<open>placeholders s\<close> lists the names of all occurrences from left to right.
\<close>

definition letterOrUnderscore :: "char \<Rightarrow> bool" where
  "letterOrUnderscore c \<longleftrightarrow> c \<in> set ''abcdefghijklmnopqrstuvwxyzABCDEFGHIJKLMNOPQRSTUVWXYZ_''"

definition letterDigitOrUnderscore :: "char \<Rightarrow> bool" where
  "letterDigitOrUnderscore c \<longleftrightarrow>
     c \<in> set ''abcdefghijklmnopqrstuvwxyzABCDEFGHIJKLMNOPQRSTUVWXYZ0123456789_''"

text \<open>The number a string of decimal digits denotes.\<close>

definition digitValue :: "char \<Rightarrow> nat" where
  "digitValue c = of_char c - of_char CHR ''0''"

definition decimalValue :: "string \<Rightarrow> nat" where
  "decimalValue s = foldl (\<lambda>v c. 10 * v + digitValue c) 0 s"

definition placeholderAt :: "string \<Rightarrow> nat \<Rightarrow> bool" where
  "placeholderAt s i \<longleftrightarrow>
     Suc i < length s \<and> s ! i = CHR '':'' \<and> (i = 0 \<or> s ! (i - 1) \<noteq> CHR '':'')
     \<and> letterOrUnderscore (s ! Suc i)"

definition placeholderName :: "string \<Rightarrow> nat \<Rightarrow> string" where
  "placeholderName s i = takeWhile letterDigitOrUnderscore (drop (Suc i) s)"

definition sourceLength :: "segment list \<Rightarrow> nat" where
  "sourceLength segs = length (concat (map segmentSource segs))"

definition placeholders :: "string \<Rightarrow> string list" where
  "placeholders s = map (placeholderName s) (filter (placeholderAt s) [0..<length s])"

subsection \<open>Auxiliary facts\<close>

lemma isIdentStart_imp_Char: "isIdentStart c \<Longrightarrow> isIdentChar c"
  by (auto simp: isIdentStart_def isIdentChar_def)

lemma colon_not_ident [simp]: "\<not> isIdentChar CHR '':''" "\<not> isIdentStart CHR '':''"
  by (simp_all add: isIdentStart_def isIdentChar_def)

lemma segments_source: "concat (map segmentSource (namedParamRegex p s)) = s"
  by (induction p s rule: namedParamRegex.induct) auto

definition addName :: "'a \<Rightarrow> 'a list \<Rightarrow> 'a list" where
  "addName n xs = (if n \<in> set xs then xs else xs @ [n])"

lemma addName_mem: "n \<in> set xs \<Longrightarrow> addName n xs = xs"
  and addName_fresh: "n \<notin> set xs \<Longrightarrow> addName n xs = xs @ [n]"
  by (simp_all add: addName_def)

definition stateOk :: "parseState \<Rightarrow> bool" where
  "stateOk st \<longleftrightarrow> distinct (order st) \<and>
     (\<forall>n. paramMap st n = (if n \<in> set (order st) then Some (position n (order st)) else None))"

lemma position_append: "n \<in> set xs \<Longrightarrow> position n (xs @ ys) = position n xs"
  by (induction xs) (auto simp: position_def)

lemma position_fresh: "n \<notin> set xs \<Longrightarrow> position n (xs @ [n]) = Suc (length xs)"
  by (induction xs) (auto simp: position_def)

lemma position_le: "n \<in> set xs \<Longrightarrow> position n xs \<le> length xs"
  by (induction xs) (auto simp: position_def)

lemma replacer_ok:
  assumes "stateOk st"
  shows "replacer n st = (CHR ''$'' # String_of_nat (position n (addName n (order st))),
            st\<lparr>paramMap := (if n \<in> set (order st) then paramMap st
                             else (paramMap st)(n \<mapsto> Suc (length (order st)))),
                order := addName n (order st)\<rparr>)"
  using assms
  by (auto simp: replacer_def stateOk_def addName_def position_fresh Let_def)

lemma replacer_stateOk:
  assumes "stateOk st"
  shows "stateOk (snd (replacer n st))"
  using assms unfolding replacer_ok[OF assms]
  by (auto simp: stateOk_def addName_def position_fresh position_append)

lemma replacer_order: "stateOk st \<Longrightarrow> order (snd (replacer n st)) = addName n (order st)"
  by (simp add: replacer_ok)

definition matchNames :: "segment list \<Rightarrow> string list" where
  "matchNames segs = [n. Match n \<leftarrow> segs]"

lemma matchNames_simps [simp]:
  "matchNames [] = []"
  "matchNames (Text c # segs) = matchNames segs"
  "matchNames (Match n # segs) = n # matchNames segs"
  "matchNames (xs @ ys) = matchNames xs @ matchNames ys"
  by (simp_all add: matchNames_def)

lemma matchAll_matchNames: "matchAll s = matchNames (namedParamRegex None s)"
  by (simp add: matchAll_def matchNames_def)

lemma matchNames_map_Text [simp]: "matchNames (map Text cs) = []"
  by (induction cs) simp_all

lemma addName_prefix: "\<exists>zs. fold addName ns xs = xs @ zs"
proof (induction ns arbitrary: xs)
  case Nil
  show ?case by simp
next
  case (Cons n ns)
  obtain zs where "fold addName ns (addName n xs) = addName n xs @ zs"
    using Cons.IH by blast
  then show ?case by (cases "n \<in> set xs") (simp_all add: addName_mem addName_fresh)
qed

lemma set_addName [simp]: "set (addName n xs) = insert n (set xs)"
  by (auto simp: addName_def)

lemma fold_addName_set: "set (fold addName ns xs) = set xs \<union> set ns"
  by (induction ns arbitrary: xs) auto

lemma position_fold_addName:
  assumes "n \<in> set xs"
  shows "position n (fold addName ns xs) = position n xs"
proof -
  obtain zs where "fold addName ns xs = xs @ zs" using addName_prefix by blast
  with assms show ?thesis by (simp add: position_append)
qed

lemma rewriteAll_simps [simp]:
  "rewriteAll names [] = []"
  "rewriteAll names (seg # segs) = rewriteSegment names seg @ rewriteAll names segs"
  "rewriteAll names (xs @ ys) = rewriteAll names xs @ rewriteAll names ys"
  by (simp_all add: rewriteAll_def)

lemma rewriteAll_map_Text [simp]: "rewriteAll names (map Text cs) = cs"
  by (induction cs) simp_all

lemma replace_ok:
  assumes "stateOk st"
  shows "stateOk (snd (replace segs st))
       \<and> order (snd (replace segs st)) = fold addName (matchNames segs) (order st)
       \<and> fst (replace segs st) = rewriteAll (fold addName (matchNames segs) (order st)) segs"
  using assms
proof (induction segs arbitrary: st)
  case Nil
  then show ?case by simp
next
  case (Cons seg segs)
  show ?case
  proof (cases seg)
    case (Text c)
    with Cons.IH[OF Cons.prems] show ?thesis
      by (simp add: case_prod_beta)
  next
    case (Match n)
    let ?st1 = "snd (replacer n st)"
    have ok1: "stateOk ?st1" using Cons.prems by (rule replacer_stateOk)
    have o1: "order ?st1 = addName n (order st)" using Cons.prems by (rule replacer_order)
    have r1: "fst (replacer n st) = CHR ''$'' # String_of_nat (position n (addName n (order st)))"
      using Cons.prems by (simp add: replacer_ok)
    have mem: "n \<in> set (addName n (order st))" by (simp add: addName_def)
    from Cons.IH[OF ok1] Match o1 r1 position_fold_addName[OF mem] show ?thesis
      by (simp add: case_prod_beta)
  qed
qed

lemma stateOk_init: "stateOk \<lparr>paramMap = Map.empty, order = []\<rparr>"
  by (simp add: stateOk_def)

lemma parse_order: "parameterOrder (parseNamedParameters s) = fold addName (matchAll s) []"
  using replace_ok[OF stateOk_init, of "namedParamRegex None s"]
  by (simp add: parseNamedParameters_def case_prod_beta matchAll_def matchNames_def)

lemma parse_sql:
  "sql (parseNamedParameters s) = rewriteAll (parameterOrder (parseNamedParameters s)) (namedParamRegex None s)"
  using replace_ok[OF stateOk_init, of "namedParamRegex None s"]
  by (simp add: parseNamedParameters_def case_prod_beta)

lemma fold_addName_firstOccurrences:
  "fold addName ns xs = xs @ filter (\<lambda>n. n \<notin> set xs) (firstOccurrences ns)"
proof (induction ns arbitrary: xs)
  case Nil
  show ?case by simp
next
  case (Cons n ns)
  have *: "filter (\<lambda>m. m \<notin> set xs \<and> m \<noteq> n) ys = filter (\<lambda>m. m \<notin> set xs) (removeAll n ys)" for ys
    by (induction ys) auto
  have **: "n \<in> set xs \<Longrightarrow> filter (\<lambda>m. m \<notin> set xs) (removeAll n ys) = filter (\<lambda>m. m \<notin> set xs) ys" for ys
    by (induction ys) auto
  show ?case
  proof (cases "n \<in> set xs")
    case True
    with Cons.IH[of xs] ** show ?thesis by (simp add: addName_mem)
  next
    case False
    with Cons.IH[of "xs @ [n]"] *[of "firstOccurrences ns"] show ?thesis
      by (simp add: addName_fresh conj_commute)
  qed
qed

lemma Set_spread_firstOccurrences: "fold addName ns [] = firstOccurrences ns"
  by (simp add: fold_addName_firstOccurrences)

lemma set_firstOccurrences [simp]: "set (firstOccurrences xs) = set xs"
  by (induction xs) auto

lemma distinct_firstOccurrences [simp]: "distinct (firstOccurrences xs)"
  by (induction xs) (auto simp: distinct_removeAll)

lemma sorted_firstOccurrences:
  "sorted_wrt (\<lambda>a b. position a xs < position b xs) (firstOccurrences xs)"
proof (induction xs)
  case Nil
  show ?case by simp
next
  case (Cons x xs)
  have "sorted_wrt (\<lambda>a b. position a xs < position b xs) (removeAll x (firstOccurrences xs))"
    using Cons.IH by (simp add: removeAll_filter_not_eq sorted_wrt_filter)
  then have "sorted_wrt (\<lambda>a b. position a (x # xs) < position b (x # xs)) (removeAll x (firstOccurrences xs))"
    by (rule sorted_wrt_mono_rel[rotated]) (auto simp: position_def)
  then show ?case by (auto simp: position_def)
qed

lemma position_nth: "distinct xs \<Longrightarrow> i < length xs \<Longrightarrow> position (xs ! i) xs = Suc i"
proof (induction xs arbitrary: i)
  case Nil
  then show ?case by simp
next
  case (Cons x xs)
  then show ?case by (cases i) (auto simp: position_def)
qed

lemma Max_positions:
  assumes "distinct xs"
  shows "Max (insert 0 ((\<lambda>n. position n xs) ` set xs)) = length xs"
proof (cases "xs = []")
  case True
  then show ?thesis by simp
next
  case False
  have "position (last xs) xs = length xs"
    using position_nth[OF assms, of "length xs - 1"] False
    by (simp add: last_conv_nth)
  moreover have "last xs \<in> set xs" using False by simp
  ultimately have "length xs \<in> insert 0 ((\<lambda>n. position n xs) ` set xs)" by force
  moreover have "\<forall>k \<in> insert 0 ((\<lambda>n. position n xs) ` set xs). k \<le> length xs"
    by (auto simp: position_le)
  ultimately show ?thesis by (intro Max_eqI) auto
qed

subsection \<open>Scanning across a colon\<close>

definition lastUnit :: "char option \<Rightarrow> string \<Rightarrow> char option" where
  "lastUnit prev s = (if s = [] then prev else Some (last s))"

lemma regex_prev_irrelevant:
  "(p = Some CHR '':'') = (q = Some CHR '':'') \<Longrightarrow> namedParamRegex p s = namedParamRegex q s"
  by (cases "(p, s)" rule: namedParamRegex.cases) auto

lemma takeWhile_ident_colon:
  "takeWhile isIdentChar (ds @ CHR '':'' # rest) = takeWhile isIdentChar ds"
  by (induction ds) simp_all

lemma dropWhile_ident_colon:
  "dropWhile isIdentChar (ds @ CHR '':'' # rest) = dropWhile isIdentChar ds @ CHR '':'' # rest"
  by (induction ds) simp_all

lemma last_dropWhile: "dropWhile P xs \<noteq> [] \<Longrightarrow> last (dropWhile P xs) = last xs"
  by (induction xs) (auto split: if_splits)

lemma regex_append_colon:
  "namedParamRegex p (pre @ CHR '':'' # rest)
     = namedParamRegex p pre @ namedParamRegex (lastUnit p pre) (CHR '':'' # rest)"
proof (induction p pre rule: namedParamRegex.induct)
  case (1 prev)
  show ?case by (simp add: lastUnit_def)
next
  case (2 prev c)
  show ?case by (simp add: lastUnit_def)
next
  case (3 prev c d ds)
  show ?case
  proof (cases "prev \<noteq> Some CHR '':'' \<and> c = CHR '':'' \<and> isIdentStart d")
    case True
    let ?q = "Some (last (d # takeWhile isIdentChar ds))"
    have "lastUnit ?q (dropWhile isIdentChar ds) = lastUnit prev (c # d # ds)"
    proof (cases "dropWhile isIdentChar ds = []")
      case True
      then have tw: "takeWhile isIdentChar ds = ds"
        by (metis append_Nil2 takeWhile_dropWhile_id)
      show ?thesis using True by (simp add: lastUnit_def tw)
    next
      case False
      then have ne: "ds \<noteq> []" by auto
      have "lastUnit ?q (dropWhile isIdentChar ds) = Some (last (dropWhile isIdentChar ds))"
        using False unfolding lastUnit_def by (rule if_not_P)
      also have "\<dots> = Some (last ds)" using last_dropWhile[OF False] by simp
      also have "\<dots> = lastUnit prev (c # d # ds)" using ne by (simp add: lastUnit_def)
      finally show ?thesis .
    qed
    with True "3.IH"(1) show ?thesis
      by (simp add: takeWhile_ident_colon dropWhile_ident_colon)
  next
    case False
    have "lastUnit (Some c) (d # ds) = lastUnit prev (c # d # ds)"
      by (simp add: lastUnit_def)
    with False "3.IH"(2) show ?thesis by auto
  qed
qed

lemma regex_no_colon:
  assumes "CHR '':'' \<notin> set cs" "cs \<noteq> []"
  shows "namedParamRegex p (cs @ rest) = map Text cs @ namedParamRegex (Some (last cs)) rest"
  using assms
proof (induction cs arbitrary: p)
  case Nil
  then show ?case by simp
next
  case (Cons c cs)
  show ?case
  proof (cases "cs = []")
    case True
    with Cons.prems show ?thesis by (cases rest) auto
  next
    case False
    then obtain d ds where cs: "cs = d # ds" by (cases cs) auto
    from Cons.IH[of "Some c"] Cons.prems False
    have "namedParamRegex (Some c) (cs @ rest) = map Text cs @ namedParamRegex (Some (last cs)) rest"
      by simp
    moreover have "c \<noteq> CHR '':''" using Cons.prems by auto
    ultimately show ?thesis using cs by simp
  qed
qed

lemma isIdentifier_no_colon: "isIdentifier xs \<Longrightarrow> CHR '':'' \<notin> set xs \<and> xs \<noteq> []"
  by (cases xs) (auto simp: isIdentifier_def list_all_iff)

lemma regex_cast:
  assumes "isIdentifier ident"
  shows "namedParamRegex None (pre @ ''::'' @ ident @ post)
           = namedParamRegex None pre @ map Text (''::'' @ ident) @ namedParamRegex None post"
proof -
  from assms have nc: "CHR '':'' \<notin> set ident" "ident \<noteq> []"
    using isIdentifier_no_colon by blast+
  have 1: "namedParamRegex None (pre @ CHR '':'' # (CHR '':'' # ident @ post))
        = namedParamRegex None pre @ namedParamRegex (lastUnit None pre) (CHR '':'' # CHR '':'' # ident @ post)"
    by (rule regex_append_colon)
  have 2: "namedParamRegex q (CHR '':'' # CHR '':'' # ident @ post)
        = Text CHR '':'' # Text CHR '':'' # namedParamRegex (Some CHR '':'') (ident @ post)" for q
    using nc by (cases ident) auto
  have 3: "namedParamRegex (Some CHR '':'') (ident @ post) = map Text ident @ namedParamRegex (Some (last ident)) post"
    using nc by (rule regex_no_colon)
  have "last ident \<noteq> CHR '':''" using nc by (metis last_in_set)
  then have 4: "namedParamRegex (Some (last ident)) post = namedParamRegex None post"
    by (intro regex_prev_irrelevant) simp
  show ?thesis using 1 2 3 4 by simp
qed

lemma takeWhile_identifier:
  assumes "list_all isIdentChar ds" "post = [] \<or> \<not> isIdentChar (hd post)"
  shows "takeWhile isIdentChar (ds @ post) = ds" "dropWhile isIdentChar (ds @ post) = post"
  using assms by (induction ds) (cases post; simp)+

lemma regex_placeholder:
  assumes "isIdentifier ident" "pre = [] \<or> last pre \<noteq> CHR '':''"
    and "post = [] \<or> \<not> isIdentChar (hd post)"
  shows "namedParamRegex None (pre @ '':'' @ ident @ post)
           = namedParamRegex None pre @ Match ident # namedParamRegex None post"
proof -
  from assms(1) obtain d ds where ident: "ident = d # ds" "isIdentStart d" "list_all isIdentChar ds"
    by (cases ident) (auto simp: isIdentifier_def)
  have q: "lastUnit None pre \<noteq> Some CHR '':''"
    using assms(2) by (auto simp: lastUnit_def)
  have "\<forall>x \<in> set (d # ds). isIdentChar x"
    using ident(2,3) isIdentStart_imp_Char by (auto simp: list_all_iff)
  then have "isIdentChar (last (d # ds))"
    using last_in_set[of "d # ds"] by blast
  then have "last (d # ds) \<noteq> CHR '':''" by auto
  then have 4: "namedParamRegex (Some (last (d # ds))) post = namedParamRegex None post"
    by (intro regex_prev_irrelevant) simp
  have "namedParamRegex (lastUnit None pre) (CHR '':'' # d # ds @ post)
          = Match (d # ds) # namedParamRegex None post"
    using q ident(2) takeWhile_identifier[OF ident(3) assms(3)] 4 by simp
  with regex_append_colon[of None pre "ident @ post"] ident(1) show ?thesis by simp
qed

subsection \<open>The matches are the placeholder occurrences\<close>

lemma digitChar_digit:
  assumes "d < 10"
  shows "digitValue (digitChar d) = d" "digitChar d \<in> set ''0123456789''"
proof -
  from assms have "d = 0 \<or> d = 1 \<or> d = 2 \<or> d = 3 \<or> d = 4 \<or> d = 5 \<or> d = 6
      \<or> d = 7 \<or> d = 8 \<or> d = 9"
    by arith
  then consider "d = 0" | "d = 1" | "d = 2" | "d = 3" | "d = 4" | "d = 5" | "d = 6"
    | "d = 7" | "d = 8" | "d = 9"
    by blast
  then have "digitValue (digitChar d) = d \<and> digitChar d \<in> set ''0123456789''"
    by cases (simp_all add: digitChar_def digitValue_def)
  then show "digitValue (digitChar d) = d" "digitChar d \<in> set ''0123456789''"
    by blast+
qed

lemma String_of_nat_decimal:
  "decimalValue (String_of_nat n) = n \<and> set (String_of_nat n) \<subseteq> set ''0123456789''"
proof (induction n rule: String_of_nat.induct)
  case (1 n)
  show ?case
  proof (cases "n < 10")
    case True
    then have "String_of_nat n = [digitChar n]" by (subst String_of_nat.simps) simp
    with digitChar_digit[OF True] show ?thesis by (simp add: decimalValue_def)
  next
    case False
    have m: "n mod 10 < 10" by simp
    from False have s: "String_of_nat n = String_of_nat (n div 10) @ [digitChar (n mod 10)]"
      by (subst String_of_nat.simps) simp
    from 1[OF False] have ih: "decimalValue (String_of_nat (n div 10)) = n div 10"
      "set (String_of_nat (n div 10)) \<subseteq> set ''0123456789''" by blast+
    have "decimalValue (String_of_nat n) = 10 * (n div 10) + n mod 10"
      unfolding s using ih(1) digitChar_digit(1)[OF m] by (simp add: decimalValue_def)
    moreover have "set (String_of_nat n) \<subseteq> set ''0123456789''"
      unfolding s using ih(2) digitChar_digit(2)[OF m] by simp
    ultimately show ?thesis by simp
  qed
qed

lemma isIdentStart_letterOrUnderscore: "isIdentStart c = letterOrUnderscore c"
proof -
  define n where "n = (of_char c :: nat)"
  have eq: "(c = d) = (n = of_char d)" for d
    unfolding n_def by simp
  show ?thesis
    unfolding isIdentStart_def letterOrUnderscore_def less_eq_char_def n_def[symmetric]
    by (simp add: eq) arith
qed

lemma isIdentChar_letterDigitOrUnderscore: "isIdentChar c = letterDigitOrUnderscore c"
proof -
  define n where "n = (of_char c :: nat)"
  have eq: "(c = d) = (n = of_char d)" for d
    unfolding n_def by simp
  show ?thesis
    unfolding isIdentChar_def letterDigitOrUnderscore_def less_eq_char_def n_def[symmetric]
    by (simp add: eq) arith
qed


lemma regex_match_split:
  "namedParamRegex p s = xs @ Match n # ys \<Longrightarrow>
     lastUnit p (concat (map segmentSource xs)) \<noteq> Some CHR '':''
     \<and> isIdentifier n
     \<and> (concat (map segmentSource ys) = [] \<or> \<not> isIdentChar (hd (concat (map segmentSource ys))))"
proof (induction p s arbitrary: xs rule: namedParamRegex.induct)
  case (1 prev)
  then show ?case by simp
next
  case (2 prev c)
  then show ?case by (cases xs) auto
next
  case (3 prev c d ds)
  let ?m = "d # takeWhile isIdentChar ds"
  let ?q = "Some (last ?m)"
  show ?case
  proof (cases "prev \<noteq> Some CHR '':'' \<and> c = CHR '':'' \<and> isIdentStart d")
    case True
    then have eq: "Match ?m # namedParamRegex ?q (dropWhile isIdentChar ds) = xs @ Match n # ys"
      using "3.prems" by simp
    show ?thesis
    proof (cases xs)
      case Nil
      with eq have n: "n = ?m" and ys: "ys = namedParamRegex ?q (dropWhile isIdentChar ds)"
        by (auto simp del: last.simps)
      have src: "concat (map segmentSource ys) = dropWhile isIdentChar ds"
        unfolding ys by (rule segments_source)
      have "isIdentifier n"
        using True unfolding n isIdentifier_def
        by (simp add: list_all_iff) (meson set_takeWhileD)
      moreover have "dropWhile isIdentChar ds = [] \<or> \<not> isIdentChar (hd (dropWhile isIdentChar ds))"
        using hd_dropWhile[of isIdentChar ds] by blast
      ultimately show ?thesis using True Nil src by (simp add: lastUnit_def)
    next
      case (Cons x xs')
      with eq have x: "x = Match ?m"
        and rest: "namedParamRegex ?q (dropWhile isIdentChar ds) = xs' @ Match n # ys"
        by simp_all
      from "3.IH"(1)[OF True rest]
      have ih: "lastUnit ?q (concat (map segmentSource xs')) \<noteq> Some CHR '':''"
        "isIdentifier n"
        "concat (map segmentSource ys) = [] \<or> \<not> isIdentChar (hd (concat (map segmentSource ys)))"
        by blast+
      have "lastUnit prev (concat (map segmentSource xs)) = lastUnit ?q (concat (map segmentSource xs'))"
        unfolding Cons x by (simp add: lastUnit_def)
      with ih show ?thesis by simp
    qed
  next
    case False
    then have eq: "Text c # namedParamRegex (Some c) (d # ds) = xs @ Match n # ys"
      using "3.prems" by auto
    then obtain xs' where xs: "xs = Text c # xs'"
      and rest: "namedParamRegex (Some c) (d # ds) = xs' @ Match n # ys"
      by (cases xs) auto
    from "3.IH"(2)[OF False rest]
    have ih: "lastUnit (Some c) (concat (map segmentSource xs')) \<noteq> Some CHR '':''"
        "isIdentifier n"
        "concat (map segmentSource ys) = [] \<or> \<not> isIdentChar (hd (concat (map segmentSource ys)))"
      by blast+
    have "lastUnit prev (concat (map segmentSource xs)) = lastUnit (Some c) (concat (map segmentSource xs'))"
      unfolding xs by (simp add: lastUnit_def)
    with ih show ?thesis by simp
  qed
qed

lemma isIdentifier_chars: "isIdentifier n \<Longrightarrow> n \<noteq> [] \<and> isIdentStart (hd n) \<and> list_all isIdentChar n"
  by (cases n) (auto simp: isIdentifier_def isIdentStart_imp_Char)

lemma placeholder_decomposition:
  assumes "isIdentifier n" "pre = [] \<or> last pre \<noteq> CHR '':''"
    and "post = [] \<or> \<not> isIdentChar (hd post)"
  shows "placeholderAt (pre @ CHR '':'' # n @ post) (length pre)"
    and "placeholderName (pre @ CHR '':'' # n @ post) (length pre) = n"
proof -
  from isIdentifier_chars[OF assms(1)]
  have n: "n \<noteq> []" "isIdentStart (hd n)" "list_all isIdentChar n" by blast+
  have "(pre @ CHR '':'' # n @ post) ! Suc (length pre) = hd n"
    using n(1) by (cases n) (simp_all add: nth_append)
  moreover have "pre \<noteq> [] \<Longrightarrow> (pre @ CHR '':'' # n @ post) ! (length pre - 1) = last pre"
    by (simp add: nth_append last_conv_nth)
  ultimately show "placeholderAt (pre @ CHR '':'' # n @ post) (length pre)"
    using n assms(2) unfolding placeholderAt_def
    by (cases "pre = []") (auto simp: isIdentStart_letterOrUnderscore[symmetric])
  have "letterDigitOrUnderscore = isIdentChar"
    by (simp add: fun_eq_iff isIdentChar_letterDigitOrUnderscore)
  then show "placeholderName (pre @ CHR '':'' # n @ post) (length pre) = n"
    unfolding placeholderName_def using takeWhile_identifier(1)[OF n(3) assms(3)] by simp
qed

lemma matches_are_placeholders:
  assumes "namedParamRegex None s = xs @ Match n # ys"
  shows "placeholderAt s (sourceLength xs) \<and> n = placeholderName s (sourceLength xs)"
proof -
  let ?pre = "concat (map segmentSource xs)" and ?post = "concat (map segmentSource ys)"
  from regex_match_split[OF assms]
  have a: "lastUnit None ?pre \<noteq> Some CHR '':''" "isIdentifier n"
    "?post = [] \<or> \<not> isIdentChar (hd ?post)" by blast+
  have "concat (map segmentSource (namedParamRegex None s)) = s" by (rule segments_source)
  then have s: "s = ?pre @ CHR '':'' # n @ ?post" unfolding assms by simp
  have "lastUnit None pre \<noteq> Some CHR '':'' \<Longrightarrow> pre = [] \<or> last pre \<noteq> CHR '':''" for pre
    by (auto simp: lastUnit_def)
  from this[OF a(1)] have pre: "?pre = [] \<or> last ?pre \<noteq> CHR '':''" .
  from placeholder_decomposition[OF a(2) pre a(3)] show ?thesis
    unfolding sourceLength_def using s by simp
qed

lemma placeholders_are_matched:
  assumes "placeholderAt s i"
  shows "\<exists>xs ys. namedParamRegex None s = xs @ Match (placeholderName s i) # ys \<and> sourceLength xs = i"
proof -
  let ?pre = "take i s" and ?rest = "drop (Suc i) s"
  let ?n = "takeWhile isIdentChar ?rest" and ?post = "dropWhile isIdentChar ?rest"
  have cls: "letterDigitOrUnderscore = isIdentChar"
    by (simp add: fun_eq_iff isIdentChar_letterDigitOrUnderscore)
  from assms have i: "Suc i < length s" "s ! i = CHR '':''" "i = 0 \<or> s ! (i - 1) \<noteq> CHR '':''"
    "isIdentStart (s ! Suc i)"
    by (simp_all add: placeholderAt_def isIdentStart_letterOrUnderscore)
  have s: "s = ?pre @ CHR '':'' # ?n @ ?post"
    using i(1,2) by (simp add: Cons_nth_drop_Suc[symmetric] Suc_lessD)
       (metis Cons_nth_drop_Suc Suc_lessD append_take_drop_id)
  have hd: "hd ?rest = s ! Suc i" using i(1) by (simp add: hd_drop_conv_nth)
  have ne: "?rest \<noteq> []" using i(1) by simp
  have "isIdentifier ?n"
  proof -
    obtain d ds where r: "?rest = d # ds" using ne by (cases ?rest) auto
    then have "isIdentStart d" using hd i(4) by simp
    then show ?thesis
      unfolding r isIdentifier_def
      by (simp add: isIdentStart_imp_Char list_all_iff) (meson set_takeWhileD)
  qed
  moreover have "?pre = [] \<or> last ?pre \<noteq> CHR '':''"
  proof (cases "i = 0")
    case True
    then show ?thesis by simp
  next
    case False
    then have "take i s \<noteq> []" using i(1) by auto
    from last_conv_nth[OF this] have "last ?pre = s ! (i - 1)"
      using i(1) False by (simp add: min_def)
    with False i(3) show ?thesis by simp
  qed
  moreover have "?post = [] \<or> \<not> isIdentChar (hd ?post)"
    using hd_dropWhile[of isIdentChar ?rest] by blast
  ultimately have "namedParamRegex None (?pre @ '':'' @ ?n @ ?post)
       = namedParamRegex None ?pre @ Match ?n # namedParamRegex None ?post"
    by (rule regex_placeholder)
  then have "namedParamRegex None s = namedParamRegex None ?pre @ Match ?n # namedParamRegex None ?post"
    using s by simp
  moreover have "sourceLength (namedParamRegex None ?pre) = i"
    unfolding sourceLength_def segments_source using i(1) by simp
  ultimately show ?thesis unfolding placeholderName_def cls by blast
qed


fun matchOffsets :: "nat \<Rightarrow> segment list \<Rightarrow> nat list" where
  "matchOffsets off [] = []"
| "matchOffsets off (Text c # segs) = matchOffsets (Suc off) segs"
| "matchOffsets off (Match n # segs) = off # matchOffsets (off + Suc (length n)) segs"

lemma sourceLength_simps [simp]:
  "sourceLength [] = 0"
  "sourceLength (Text c # segs) = Suc (sourceLength segs)"
  "sourceLength (Match n # segs) = Suc (length n) + sourceLength segs"
  "sourceLength (xs @ ys) = sourceLength xs + sourceLength ys"
  by (simp_all add: sourceLength_def)

lemma matchOffsets_append:
  "matchOffsets off (xs @ ys) = matchOffsets off xs @ matchOffsets (off + sourceLength xs) ys"
proof (induction xs arbitrary: off)
  case Nil
  show ?case by simp
next
  case (Cons x xs)
  then show ?case by (cases x) (simp_all add: add.commute add.left_commute)
qed

lemma matchOffsets_lower: "i \<in> set (matchOffsets off segs) \<Longrightarrow> off \<le> i"
proof (induction segs arbitrary: off)
  case Nil
  then show ?case by simp
next
  case (Cons x segs)
  then show ?case by (cases x) (fastforce dest: Cons.IH)+
qed

lemma matchOffsets_sorted: "sorted_wrt (<) (matchOffsets off segs)"
proof (induction segs arbitrary: off)
  case Nil
  show ?case by simp
next
  case (Cons x segs)
  then show ?case by (cases x) (fastforce dest: matchOffsets_lower)+
qed

lemma matchOffsets_decomp:
  "i \<in> set (matchOffsets off segs) \<Longrightarrow>
     \<exists>xs n ys. segs = xs @ Match n # ys \<and> i = off + sourceLength xs"
proof (induction segs arbitrary: off)
  case Nil
  then show ?case by simp
next
  case (Cons x segs)
  show ?case
  proof (cases x)
    case (Text c)
    with Cons.prems have "i \<in> set (matchOffsets (Suc off) segs)" by simp
    from Cons.IH[OF this] obtain xs n ys
      where "segs = xs @ Match n # ys" "i = Suc off + sourceLength xs" by blast
    then have "x # segs = (Text c # xs) @ Match n # ys \<and> i = off + sourceLength (Text c # xs)"
      using Text by simp
    then show ?thesis by blast
  next
    case (Match m)
    show ?thesis
    proof (cases "i = off")
      case True
      then have "x # segs = [] @ Match m # segs \<and> i = off + sourceLength []"
        using Match by simp
      then show ?thesis by blast
    next
      case False
      with Cons.prems Match have "i \<in> set (matchOffsets (off + Suc (length m)) segs)" by simp
      from Cons.IH[OF this] obtain xs n ys
        where "segs = xs @ Match n # ys" "i = off + Suc (length m) + sourceLength xs" by blast
      then have "x # segs = (Match m # xs) @ Match n # ys \<and> i = off + sourceLength (Match m # xs)"
        using Match by simp
      then show ?thesis by blast
    qed
  qed
qed

lemma matchNames_offsets:
  assumes "namedParamRegex None s = xs @ rest"
  shows "matchNames rest = map (placeholderName s) (matchOffsets (sourceLength xs) rest)"
  using assms
proof (induction rest arbitrary: xs)
  case Nil
  show ?case by simp
next
  case (Cons x rest)
  have split: "namedParamRegex None s = (xs @ [x]) @ rest" using Cons.prems by simp
  show ?case
  proof (cases x)
    case (Text c)
    with Cons.IH[OF split] show ?thesis by simp
  next
    case (Match n)
    with Cons.prems have "namedParamRegex None s = xs @ Match n # rest" by simp
    from matches_are_placeholders[OF this] have "n = placeholderName s (sourceLength xs)" by blast
    with Cons.IH[OF split] Match show ?thesis by (simp add: add.commute)
  qed
qed

lemma matchOffsets_placeholders:
  "matchOffsets 0 (namedParamRegex None s) = filter (placeholderAt s) [0..<length s]"
proof -
  let ?segs = "namedParamRegex None s"
  have "set (matchOffsets 0 ?segs) = {i. placeholderAt s i}"
  proof (intro set_eqI iffI)
    fix i assume "i \<in> set (matchOffsets 0 ?segs)"
    from matchOffsets_decomp[OF this] obtain xs n ys
      where "?segs = xs @ Match n # ys" "i = sourceLength xs" by auto
    with matches_are_placeholders show "i \<in> {i. placeholderAt s i}" by blast
  next
    fix i assume "i \<in> {i. placeholderAt s i}"
    then have "placeholderAt s i" by simp
    from placeholders_are_matched[OF this] obtain xs ys
      where d: "?segs = xs @ Match (placeholderName s i) # ys" "sourceLength xs = i" by blast
    show "i \<in> set (matchOffsets 0 ?segs)"
      unfolding d(1) matchOffsets_append using d(2) by simp
  qed
  also have "\<dots> = set (filter (placeholderAt s) [0..<length s])"
    by (auto simp: placeholderAt_def)
  finally have "set (matchOffsets 0 ?segs) = set (filter (placeholderAt s) [0..<length s])" .
  moreover have "sorted (matchOffsets 0 ?segs)" "distinct (matchOffsets 0 ?segs)"
    using matchOffsets_sorted[of 0 ?segs] strict_sorted_iff by blast+
  moreover have "sorted (filter (placeholderAt s) [0..<length s])"
    "distinct (filter (placeholderAt s) [0..<length s])"
    by (simp_all add: sorted_wrt_filter)
  ultimately show ?thesis by (intro sorted_distinct_set_unique)
qed

lemma matchAll_placeholders: "matchAll s = placeholders s"
  using matchNames_offsets[of s "[]" "namedParamRegex None s"]
  by (simp add: matchAll_matchNames placeholders_def matchOffsets_placeholders)


subsection \<open>Claims about the parameter mapper\<close>

text \<open>
  C1. For every SQL string, \<open>parseNamedParameters\<close> rewrites each placeholder occurrence
  \<open>:name\<close> to \<open>$i\<close>, where \<open>i\<close> is the 1-based position the name received at its first
  occurrence, and leaves all other text as it is; repeated names share one position; the
  returned \<open>parameterOrder\<close> lists the distinct names in the order of their first occurrence,
  and its length is the highest position used. The occurrences are those of the text itself:
  the segments the pattern cuts the input into spell the input; every match stands at an
  offset where a placeholder starts (a colon, not preceded by a colon, followed by a letter
  or the underscore) and captures the longest run of letters, digits and underscores after
  the colon; every such offset is matched; so the names matched, left to right, are
  \<open>placeholders s\<close>. A position is written as its decimal numeral. For
  \<open>SELECT * FROM t WHERE a = :x AND b = :y AND c = :x\<close> the result is
  \<open>SELECT * FROM t WHERE a = $1 AND b = $2 AND c = $1\<close> with order \<open>[x, y]\<close>, and for
  \<open>id = :user_id AND s = :st_2 OR o = :user_id\<close> it is \<open>id = $1 AND s = $2 OR o = $1\<close> with
  order \<open>[user_id, st_2]\<close>; eleven names in a row are numbered \<open>$1\<close> to \<open>$11\<close>.
\<close>

theorem parseNamedParameters_positions:
  "concat (map segmentSource (namedParamRegex None s)) = s
   \<and> (\<forall>xs n ys. namedParamRegex None s = xs @ Match n # ys \<longrightarrow>
          placeholderAt s (sourceLength xs) \<and> n = placeholderName s (sourceLength xs))
   \<and> (\<forall>i. placeholderAt s i \<longrightarrow>
          (\<exists>xs ys. namedParamRegex None s = xs @ Match (placeholderName s i) # ys
                   \<and> sourceLength xs = i))
   \<and> matchAll s = placeholders s
   \<and> sql (parseNamedParameters s)
       = rewriteAll (parameterOrder (parseNamedParameters s)) (namedParamRegex None s)
   \<and> decimalValue (String_of_nat i) = i \<and> set (String_of_nat i) \<subseteq> set ''0123456789''
   \<and> parameterOrder (parseNamedParameters s) = firstOccurrences (placeholders s)
   \<and> parameterOrder (parseNamedParameters s) = firstOccurrences (matchAll s)
   \<and> distinct (parameterOrder (parseNamedParameters s))
   \<and> set (parameterOrder (parseNamedParameters s)) = set (matchAll s)
   \<and> sorted_wrt (\<lambda>a b. position a (matchAll s) < position b (matchAll s))
         (parameterOrder (parseNamedParameters s))
   \<and> length (parameterOrder (parseNamedParameters s))
       = Max (insert 0 ((\<lambda>n. position n (parameterOrder (parseNamedParameters s))) ` set (matchAll s)))
   \<and> parseNamedParameters ''SELECT * FROM t WHERE a = :x AND b = :y AND c = :x''
       = \<lparr>sql = ''SELECT * FROM t WHERE a = $1 AND b = $2 AND c = $1'',
          parameterOrder = [''x'', ''y'']\<rparr>
   \<and> parseNamedParameters ''id = :user_id AND s = :st_2 OR o = :user_id''
       = \<lparr>sql = ''id = $1 AND s = $2 OR o = $1'', parameterOrder = [''user_id'', ''st_2'']\<rparr>
   \<and> parseNamedParameters '':a:b:c:d:e:f:g:h:i:j:k:a''
       = \<lparr>sql = ''$1$2$3$4$5$6$7$8$9$10$11$1'',
          parameterOrder = [''a'', ''b'', ''c'', ''d'', ''e'', ''f'', ''g'', ''h'', ''i'', ''j'', ''k'']\<rparr>"
proof -
  let ?r = "parseNamedParameters s"
  have src: "concat (map segmentSource (namedParamRegex None s)) = s"
    by (rule segments_source)
  have sound: "\<forall>xs n ys. namedParamRegex None s = xs @ Match n # ys \<longrightarrow>
          placeholderAt s (sourceLength xs) \<and> n = placeholderName s (sourceLength xs)"
    using matches_are_placeholders by blast
  have complete: "\<forall>i. placeholderAt s i \<longrightarrow>
          (\<exists>xs ys. namedParamRegex None s = xs @ Match (placeholderName s i) # ys
                   \<and> sourceLength xs = i)"
    using placeholders_are_matched by blast
  have ord: "parameterOrder ?r = firstOccurrences (matchAll s)"
    by (simp add: parse_order Set_spread_firstOccurrences)
  have ord': "parameterOrder ?r = firstOccurrences (placeholders s)"
    using ord by (simp add: matchAll_placeholders)
  have mx: "length (parameterOrder ?r)
       = Max (insert 0 ((\<lambda>n. position n (parameterOrder ?r)) ` set (matchAll s)))"
    using Max_positions[of "parameterOrder ?r"] by (simp add: ord)
  have ex: "parseNamedParameters ''SELECT * FROM t WHERE a = :x AND b = :y AND c = :x''
       = \<lparr>sql = ''SELECT * FROM t WHERE a = $1 AND b = $2 AND c = $1'',
          parameterOrder = [''x'', ''y'']\<rparr>"
    by (simp add: parseNamedParameters_def replacer_def isIdentStart_def isIdentChar_def
        String_of_nat.simps digitChar_def)
  have ex2: "parseNamedParameters ''id = :user_id AND s = :st_2 OR o = :user_id''
       = \<lparr>sql = ''id = $1 AND s = $2 OR o = $1'', parameterOrder = [''user_id'', ''st_2'']\<rparr>"
    by (simp add: parseNamedParameters_def replacer_def isIdentStart_def isIdentChar_def
        String_of_nat.simps digitChar_def)
  have ex3: "parseNamedParameters '':a:b:c:d:e:f:g:h:i:j:k:a''
       = \<lparr>sql = ''$1$2$3$4$5$6$7$8$9$10$11$1'',
          parameterOrder = [''a'', ''b'', ''c'', ''d'', ''e'', ''f'', ''g'', ''h'', ''i'', ''j'', ''k'']\<rparr>"
    by (simp add: parseNamedParameters_def replacer_def isIdentStart_def isIdentChar_def
        String_of_nat.simps digitChar_def)
  have dec: "decimalValue (String_of_nat i) = i" "set (String_of_nat i) \<subseteq> set ''0123456789''"
    using String_of_nat_decimal[of i] by blast+
  have rest: "distinct (parameterOrder ?r)" "set (parameterOrder ?r) = set (matchAll s)"
    "sorted_wrt (\<lambda>a b. position a (matchAll s) < position b (matchAll s)) (parameterOrder ?r)"
    using sorted_firstOccurrences[of "matchAll s"] by (simp_all add: ord)
  from src sound complete matchAll_placeholders[of s] parse_sql[of s] dec ord' ord rest mx ex ex2 ex3
  show ?thesis by (intro conjI)
qed

theorem parseNamedParameters_positions_witness:
  "placeholderAt ''id = :user_id AND s = :st_2 OR o = :user_id::int'' 5
   \<and> placeholderName ''id = :user_id AND s = :st_2 OR o = :user_id::int'' 5 = ''user_id''
   \<and> (\<exists>xs ys. namedParamRegex None ''id = :user_id AND s = :st_2 OR o = :user_id::int''
                 = xs @ Match ''user_id'' # ys \<and> sourceLength xs = 5)
   \<and> namedParamRegex None ''a:b1 '' = [Text CHR ''a''] @ Match ''b1'' # [Text CHR '' '']
   \<and> placeholderAt ''a:b1 '' 1 \<and> placeholderName ''a:b1 '' 1 = ''b1''
   \<and> placeholders ''id = :user_id AND s = :st_2 OR o = :user_id::int''
       = [''user_id'', ''st_2'', ''user_id'']
   \<and> parseNamedParameters ''id = :user_id AND s = :st_2 OR o = :user_id::int''
       = \<lparr>sql = ''id = $1 AND s = $2 OR o = $1::int'', parameterOrder = [''user_id'', ''st_2'']\<rparr>"
proof -
  let ?s = "''id = :user_id AND s = :st_2 OR o = :user_id::int''"
  note t = parseNamedParameters_positions
  have at: "placeholderAt ?s 5"
    by (simp add: placeholderAt_def letterOrUnderscore_def)
  have name: "placeholderName ?s 5 = ''user_id''"
    by (simp add: placeholderName_def letterDigitOrUnderscore_def)
  have ps: "placeholders ?s = [''user_id'', ''st_2'', ''user_id'']"
    by code_simp
  have seg: "namedParamRegex None ''a:b1 '' = [Text CHR ''a''] @ Match ''b1'' # [Text CHR '' '']"
    by (simp add: isIdentStart_def isIdentChar_def)
  from t[of ?s] at have "\<exists>xs ys. namedParamRegex None ?s = xs @ Match (placeholderName ?s 5) # ys
      \<and> sourceLength xs = 5"
    by blast
  then have c: "\<exists>xs ys. namedParamRegex None ?s = xs @ Match ''user_id'' # ys \<and> sourceLength xs = 5"
    unfolding name .
  from t[of "''a:b1 ''"] seg
  have "placeholderAt ''a:b1 '' (sourceLength [Text CHR ''a''])
      \<and> ''b1'' = placeholderName ''a:b1 '' (sourceLength [Text CHR ''a''])"
    by blast
  then have b: "placeholderAt ''a:b1 '' 1" "placeholderName ''a:b1 '' 1 = ''b1''"
    by simp_all
  have segs: "namedParamRegex None ?s
      = map Text ''id = '' @ Match ''user_id'' # map Text '' AND s = '' @ Match ''st_2''
          # map Text '' OR o = '' @ Match ''user_id'' # map Text ''::int''"
    by (simp add: isIdentStart_def isIdentChar_def)
  have d: "String_of_nat (Suc 0) = ''1''" "String_of_nat (Suc (Suc 0)) = ''2''"
    by (subst String_of_nat.simps, simp add: digitChar_def)+
  from t[of ?s] have o: "parameterOrder (parseNamedParameters ?s) = firstOccurrences (placeholders ?s)"
    and q: "sql (parseNamedParameters ?s)
       = rewriteAll (parameterOrder (parseNamedParameters ?s)) (namedParamRegex None ?s)"
    by blast+
  have o': "parameterOrder (parseNamedParameters ?s) = [''user_id'', ''st_2'']"
    unfolding o ps by simp
  have q': "sql (parseNamedParameters ?s) = ''id = $1 AND s = $2 OR o = $1::int''"
    unfolding q o' segs by (simp add: rewriteAll_def position_def d)
  have "parseNamedParameters ?s
       = \<lparr>sql = ''id = $1 AND s = $2 OR o = $1::int'', parameterOrder = [''user_id'', ''st_2'']\<rparr>"
    using o' q' by (cases "parseNamedParameters ?s") simp
  with at name c seg b ps show ?thesis by (intro conjI)
qed

text \<open>
  C10. For every SQL string, \<open>extractNamedParameters\<close> returns the same sequence of names as
  the \<open>parameterOrder\<close> component of \<open>parseNamedParameters\<close>.
\<close>

theorem extractNamedParameters_eq_parameterOrder:
  "extractNamedParameters s = parameterOrder (parseNamedParameters s)"
proof -
  have "Set_spread xs = fold addName xs []" for xs :: "string list"
    unfolding Set_spread_def by (rule arg_cong[where f = "\<lambda>f. fold f xs []"]) (auto simp: addName_def fun_eq_iff)
  then show ?thesis by (simp add: extractNamedParameters_def parse_order)
qed

text \<open>
  C2. A type cast, two colons followed by an identifier, is never rewritten and contributes
  no name to \<open>parameterOrder\<close>, whatever text surrounds it: the cast is copied between the
  rewritten prefix and the rewritten suffix, and the order is that of the placeholders of the
  prefix and the suffix alone. Conversely a colon that is not preceded by a colon and is
  followed by an identifier is always captured: the identifier is in \<open>parameterOrder\<close> and the
  occurrence is rewritten to its position. Parsing \<open>:id::int\<close> gives \<open>$1::int\<close> with order
  \<open>[id]\<close>.
\<close>

theorem parseNamedParameters_type_cast:
  "(isIdentifier ident \<longrightarrow>
      (let r = parseNamedParameters (pre @ ''::'' @ ident @ post) in
         parameterOrder r = firstOccurrences (matchAll pre @ matchAll post)
       \<and> sql r = rewriteAll (parameterOrder r) (namedParamRegex None pre) @ ''::'' @ ident
                   @ rewriteAll (parameterOrder r) (namedParamRegex None post)))
   \<and> (isIdentifier ident \<and> (pre = [] \<or> last pre \<noteq> CHR '':'')
        \<and> (post = [] \<or> \<not> isIdentChar (hd post)) \<longrightarrow>
      (let r = parseNamedParameters (pre @ '':'' @ ident @ post) in
         ident \<in> set (parameterOrder r)
       \<and> parameterOrder r = firstOccurrences (matchAll pre @ ident # matchAll post)
       \<and> sql r = rewriteAll (parameterOrder r) (namedParamRegex None pre)
                   @ CHR ''$'' # String_of_nat (position ident (parameterOrder r))
                   @ rewriteAll (parameterOrder r) (namedParamRegex None post)))
   \<and> parseNamedParameters '':id::int'' = \<lparr>sql = ''$1::int'', parameterOrder = [''id'']\<rparr>"
proof -
  have cast: "parameterOrder r = firstOccurrences (matchAll pre @ matchAll post)
       \<and> sql r = rewriteAll (parameterOrder r) (namedParamRegex None pre) @ ''::'' @ ident
                   @ rewriteAll (parameterOrder r) (namedParamRegex None post)"
    if "isIdentifier ident" and r: "r = parseNamedParameters (pre @ ''::'' @ ident @ post)" for r
  proof -
    have seg: "namedParamRegex None (pre @ ''::'' @ ident @ post)
           = namedParamRegex None pre @ map Text (''::'' @ ident) @ namedParamRegex None post"
      using that(1) by (rule regex_cast)
    have m: "matchAll (pre @ ''::'' @ ident @ post) = matchAll pre @ matchAll post"
      unfolding matchAll_matchNames seg by simp
    have o: "parameterOrder r = firstOccurrences (matchAll pre @ matchAll post)"
      unfolding r parse_order Set_spread_firstOccurrences m ..
    have "sql r = rewriteAll (parameterOrder r) (namedParamRegex None (pre @ ''::'' @ ident @ post))"
      unfolding r by (rule parse_sql)
    also have "\<dots> = rewriteAll (parameterOrder r) (namedParamRegex None pre) @ ''::'' @ ident
            @ rewriteAll (parameterOrder r) (namedParamRegex None post)"
      unfolding seg by simp
    finally show ?thesis using o by blast
  qed
  have ph: "ident \<in> set (parameterOrder r)
       \<and> parameterOrder r = firstOccurrences (matchAll pre @ ident # matchAll post)
       \<and> sql r = rewriteAll (parameterOrder r) (namedParamRegex None pre)
                   @ CHR ''$'' # String_of_nat (position ident (parameterOrder r))
                   @ rewriteAll (parameterOrder r) (namedParamRegex None post)"
    if "isIdentifier ident" "pre = [] \<or> last pre \<noteq> CHR '':''"
      "post = [] \<or> \<not> isIdentChar (hd post)"
      and r: "r = parseNamedParameters (pre @ '':'' @ ident @ post)" for r
  proof -
    have seg: "namedParamRegex None (pre @ '':'' @ ident @ post)
           = namedParamRegex None pre @ Match ident # namedParamRegex None post"
      using that(1,2,3) by (rule regex_placeholder)
    have m: "matchAll (pre @ '':'' @ ident @ post) = matchAll pre @ ident # matchAll post"
      unfolding matchAll_matchNames seg by simp
    have o: "parameterOrder r = firstOccurrences (matchAll pre @ ident # matchAll post)"
      unfolding r parse_order Set_spread_firstOccurrences m ..
    have "sql r = rewriteAll (parameterOrder r) (namedParamRegex None (pre @ '':'' @ ident @ post))"
      unfolding r by (rule parse_sql)
    also have "\<dots> = rewriteAll (parameterOrder r) (namedParamRegex None pre)
                   @ CHR ''$'' # String_of_nat (position ident (parameterOrder r))
                   @ rewriteAll (parameterOrder r) (namedParamRegex None post)"
      unfolding seg by simp
    finally have "sql r = rewriteAll (parameterOrder r) (namedParamRegex None pre)
                   @ CHR ''$'' # String_of_nat (position ident (parameterOrder r))
                   @ rewriteAll (parameterOrder r) (namedParamRegex None post)" .
    moreover have "ident \<in> set (parameterOrder r)" unfolding o by simp
    ultimately show ?thesis using o by blast
  qed
  have ex: "parseNamedParameters '':id::int'' = \<lparr>sql = ''$1::int'', parameterOrder = [''id'']\<rparr>"
    by (simp add: parseNamedParameters_def replacer_def isIdentStart_def isIdentChar_def
        String_of_nat.simps digitChar_def)
  show ?thesis
    unfolding Let_def using cast[OF _ refl] ph[OF _ _ _ refl] ex by blast
qed

theorem parseNamedParameters_type_cast_witness:
  "isIdentifier ''int''
   \<and> parseNamedParameters '':id::int :k'' = \<lparr>sql = ''$1::int $2'', parameterOrder = [''id'', ''k'']\<rparr>
   \<and> isIdentifier ''id''
   \<and> parseNamedParameters ''a = :id::int'' = \<lparr>sql = ''a = $1::int'', parameterOrder = [''id'']\<rparr>"
proof -
  have i: "isIdentifier ''int''" "isIdentifier ''id''"
    by (simp_all add: isIdentifier_def isIdentStart_def isIdentChar_def)
  have m: "matchAll '':id'' = [''id'']" "matchAll '' :k'' = [''k'']" "matchAll ''a = '' = []"
    "matchAll ''::int'' = []"
    by (simp_all add: matchAll_def isIdentStart_def isIdentChar_def)
  have s: "namedParamRegex None '':id'' = [Match ''id'']"
    "namedParamRegex None '' :k'' = [Text CHR '' '', Match ''k'']"
    "namedParamRegex None ''a = '' = map Text ''a = ''"
    "namedParamRegex None ''::int'' = map Text ''::int''"
    by (simp_all add: isIdentStart_def isIdentChar_def)
  have c: "\<not> isIdentChar CHR '':''" by (simp add: isIdentChar_def)
  have d: "String_of_nat (Suc 0) = ''1''" "String_of_nat (Suc (Suc 0)) = ''2''"
    by (subst String_of_nat.simps, simp add: digitChar_def)+
  note t = parseNamedParameters_type_cast
  from t[of "''int''" "'':id''" "'' :k''"] i(1)
  have o1: "parameterOrder (parseNamedParameters '':id::int :k'') = [''id'', ''k'']"
    and s1: "sql (parseNamedParameters '':id::int :k'')
       = rewriteAll (parameterOrder (parseNamedParameters '':id::int :k'')) [Match ''id''] @ ''::int''
           @ rewriteAll (parameterOrder (parseNamedParameters '':id::int :k'')) [Text CHR '' '', Match ''k'']"
    by (simp_all add: Let_def m s del: namedParamRegex.simps)
  have 1: "parseNamedParameters '':id::int :k'' = \<lparr>sql = ''$1::int $2'', parameterOrder = [''id'', ''k'']\<rparr>"
    using s1 unfolding o1
    by (simp add: o1 position_def d)
  from t[of "''id''" "''a = ''" "''::int''"] i(2) c
  have o2: "parameterOrder (parseNamedParameters ''a = :id::int'') = [''id'']"
    and s2: "sql (parseNamedParameters ''a = :id::int'')
       = rewriteAll (parameterOrder (parseNamedParameters ''a = :id::int'')) (map Text ''a = '')
           @ CHR ''$'' # String_of_nat (position ''id'' (parameterOrder (parseNamedParameters ''a = :id::int'')))
           @ rewriteAll (parameterOrder (parseNamedParameters ''a = :id::int'')) (map Text ''::int'')"
    by (simp_all add: Let_def m s del: namedParamRegex.simps rewriteAll_map_Text)
  have 2: "parseNamedParameters ''a = :id::int'' = \<lparr>sql = ''a = $1::int'', parameterOrder = [''id'']\<rparr>"
    using s2 unfolding o2
    by (simp add: o2 position_def d)
  show ?thesis using i 1 2 by simp
qed

section \<open>JavaScript values\<close>

text \<open>
  The values that travel through the tools are JSON values, plus \<open>undefined\<close> and the
  functions a value inherits from \<open>Object.prototype\<close> (\<open>JFunction\<close>, by name). An object is
  an association list with distinct keys, in the object's own key order. Numbers are
  rationals: \<open>NaN\<close> and the infinities are not JSON values.
\<close>

datatype json =
    JNull
  | JUndefined
  | JBool bool
  | JNum rat
  | JStr string
  | JArr "json list"
  | JObj "(string \<times> json) list"
  | JFunction string

text \<open>Values thrown by \<open>throw\<close>: an \<open>Error\<close> (or subclass) with its message, or anything else.\<close>

datatype thrown = Error string | NonError json

definition truthy :: "json \<Rightarrow> bool" where
  "truthy v = (case v of JNull \<Rightarrow> False | JUndefined \<Rightarrow> False | JBool b \<Rightarrow> b
                | JNum n \<Rightarrow> n \<noteq> 0 | JStr s \<Rightarrow> s \<noteq> [] | JArr _ \<Rightarrow> True | JObj _ \<Rightarrow> True
                | JFunction _ \<Rightarrow> True)"

text \<open>\<open>typeof v === 'object'\<close> holds of objects, arrays and \<open>null\<close>.\<close>

definition typeofObject :: "json \<Rightarrow> bool" where
  "typeofObject v = (case v of JNull \<Rightarrow> True | JArr _ \<Rightarrow> True | JObj _ \<Rightarrow> True | _ \<Rightarrow> False)"

text \<open>
  The members of \<open>Object.prototype\<close>, which every value that is neither \<open>null\<close> nor \<open>undefined\<close>
  inherits. Reading \<open>__proto__\<close> gives the prototype, an object without enumerable properties;
  the other members are functions.
\<close>

definition objectPrototypeKeys :: "string list" where
  "objectPrototypeKeys =
     [''constructor'', ''__defineGetter__'', ''__defineSetter__'', ''hasOwnProperty'',
      ''__lookupGetter__'', ''__lookupSetter__'', ''isPrototypeOf'', ''propertyIsEnumerable'',
      ''toString'', ''valueOf'', ''__proto__'', ''toLocaleString'']"

definition inheritedProp :: "string \<Rightarrow> json" where
  "inheritedProp k =
     (if k = ''__proto__'' then JObj []
      else if k \<in> set objectPrototypeKeys then JFunction k
      else JUndefined)"

text \<open>
  \<open>v[k]\<close> for a value that is neither \<open>null\<close> nor \<open>undefined\<close>: the object's own property, or
  else the inherited one. The members particular to arrays, strings, numbers, booleans and
  functions (indices, \<open>length\<close>, their methods) are not modelled: the sources read such
  values only under the keys \<open>type\<close>, \<open>items\<close>, \<open>default\<close>, \<open>properties\<close> and \<open>required\<close>, or
  under the name of an SQL parameter.
\<close>

fun getProp :: "json \<Rightarrow> string \<Rightarrow> json" where
  "getProp (JObj kv) k = (case map_of kv k of Some v \<Rightarrow> v | None \<Rightarrow> inheritedProp k)"
| "getProp v k = inheritedProp k"


fun hasKey :: "json \<Rightarrow> string \<Rightarrow> bool" where
  "hasKey (JObj kv) k = (k \<in> fst ` set kv \<or> k \<in> set objectPrototypeKeys)"
| "hasKey v k = False"

definition nullish :: "json \<Rightarrow> bool" where
  "nullish v \<longleftrightarrow> v = JNull \<or> v = JUndefined"

definition quoted :: "string \<Rightarrow> string" where
  "quoted s = [CHR 0x27] @ s @ [CHR 0x27]"

text \<open>
  The \<open>TypeError\<close> of V8 for \<open>v[k]\<close> when \<open>v\<close> is \<open>null\<close> or \<open>undefined\<close>, and for iterating a
  value that is not iterable. The latter names the value: the text JavaScript prints for a
  number is modelled for whole numbers below \<open>10^21\<close> only.
\<close>

definition cannotRead :: "json \<Rightarrow> string \<Rightarrow> thrown" where
  "cannotRead v k =
     Error (''Cannot read properties of '' @ (if v = JNull then ''null'' else ''undefined'')
            @ '' (reading '' @ quoted k @ '')'')"

definition numberText :: "rat \<Rightarrow> string" where
  "numberText n =
     (if n < 0 then CHR ''-'' # String_of_nat (nat (- \<lfloor>n\<rfloor>)) else String_of_nat (nat \<lfloor>n\<rfloor>))"

definition notIterable :: "json \<Rightarrow> thrown" where
  "notIterable v =
     Error ((case v of
               JNum n \<Rightarrow> ''number '' @ numberText n
             | JBool b \<Rightarrow> ''boolean '' @ (if b then ''true'' else ''false'')
             | JFunction _ \<Rightarrow> ''function''
             | _ \<Rightarrow> ''object'')
            @ '' is not iterable (cannot read property Symbol(Symbol.iterator))'')"

text \<open>\<open>Object.entries(v)\<close> for a truthy value.\<close>

fun Object_entries :: "json \<Rightarrow> (string \<times> json) list" where
  "Object_entries (JObj kv) = kv"
| "Object_entries (JArr xs) = zip (map String_of_nat [0..<length xs]) xs"
| "Object_entries (JStr s) = zip (map String_of_nat [0..<length s]) (map (\<lambda>c. JStr [c]) s)"
| "Object_entries v = []"

text \<open>The elements of \<open>new Set(v)\<close> for a truthy value: it must be iterable.\<close>

fun Set_elements :: "json \<Rightarrow> thrown + json list" where
  "Set_elements (JArr xs) = Inr xs"
| "Set_elements (JStr s) = Inr (map (\<lambda>c. JStr [c]) s)"
| "Set_elements v = Inl (notIterable v)"

section \<open>Schema validation and conversion (src/jsonSchemaValidator.ts)\<close>

text \<open>
  \<open>validateJsonSchema\<close>. The Ajv instance is a collaborator: \<open>ajvCompiles schema\<close> tells
  whether \<open>ajv.compile(schema)\<close> returns rather than throws.
\<close>

definition validateJsonSchema :: "(json \<Rightarrow> bool) \<Rightarrow> json \<Rightarrow> bool" where
  "validateJsonSchema ajvCompiles schema =
     (if schema = JNull \<or> schema = JUndefined \<or> \<not> typeofObject schema then False
      else ajvCompiles schema)"

text \<open>
  Modelled from the spec: \<open>ajv.compile\<close>, the JSON-Schema compiler of the third-party Ajv
  library, is not under src/. Section 4.2 of the specification states what its acceptance
  implies, not when it accepts: a candidate is accepted only if it is an object form whose
  type declarations are well-formed; unknown or invalid \<open>type\<close> values and non-object
  candidates are rejected. \<open>typeDeclarationsWellFormed\<close> is that necessary condition. A type
  declaration is well-formed when it is one of the seven JSON-Schema type names or a
  non-empty array of distinct such names; the declarations looked at are those of the
  candidate, of the schemas under \<open>properties\<close> and of the schema or schemas under \<open>items\<close>.
  Everything else the compiler checks (the arguments of the other keywords, references, the
  form of nested schemas) is left open by the specification and is the parameter
  \<open>furtherChecks\<close> of \<open>ajvCompile\<close>. The repository's unit tests
  (test/unit/jsonSchemaValidator.test.ts) assert the rejections.
\<close>

definition jsonSchemaTypeNames :: "string list" where
  "jsonSchemaTypeNames =
     [''string'', ''number'', ''integer'', ''boolean'', ''array'', ''object'', ''null'']"

fun typeDeclarationOk :: "json \<Rightarrow> bool" where
  "typeDeclarationOk (JStr t) = (t \<in> set jsonSchemaTypeNames)"
| "typeDeclarationOk (JArr ts) =
     (ts \<noteq> [] \<and> distinct ts \<and> list_all (\<lambda>t. t \<in> JStr ` set jsonSchemaTypeNames) ts)"
| "typeDeclarationOk v = False"

lemma size_map_of: "map_of kv k = Some v \<Longrightarrow> size v < Suc (size_list (size_prod (\<lambda>_. 0) size) kv)"
  by (induction kv) (auto split: if_splits)

lemma size_entry: "(k, v) \<in> set kv \<Longrightarrow> size v < Suc (size_list (size_prod (\<lambda>_. 0) size) kv)"
  by (induction kv) auto

lemma size_element: "x \<in> set xs \<Longrightarrow> size x < Suc (size_list size xs)"
  by (induction xs) auto

text \<open>The schemas under \<open>properties\<close> and \<open>items\<close> of a schema with the given entries.\<close>

definition declaredSubschemas :: "(string \<times> json) list \<Rightarrow> json list" where
  "declaredSubschemas kv =
     (case map_of kv ''properties'' of Some (JObj ps) \<Rightarrow> map snd ps | _ \<Rightarrow> [])
     @ (case map_of kv ''items'' of None \<Rightarrow> [] | Some (JArr xs) \<Rightarrow> xs | Some i \<Rightarrow> [i])"

lemma size_declaredSubschemas:
  assumes "x \<in> set (declaredSubschemas kv)"
  shows "size x < size (JObj kv)"
proof -
  from assms consider
      (properties) "x \<in> set (case map_of kv ''properties'' of Some (JObj ps) \<Rightarrow> map snd ps | _ \<Rightarrow> [])"
    | (items) "x \<in> set (case map_of kv ''items'' of None \<Rightarrow> [] | Some (JArr xs) \<Rightarrow> xs | Some i \<Rightarrow> [i])"
    by (auto simp: declaredSubschemas_def)
  then show ?thesis
  proof cases
    case properties
    then obtain v where v: "map_of kv ''properties'' = Some v"
      by (cases "map_of kv ''properties''") auto
    with properties obtain ps k where "v = JObj ps" "(k, x) \<in> set ps"
      by (cases v) auto
    with size_entry[of k x ps] size_map_of[OF v] show ?thesis by simp
  next
    case items
    then obtain v where v: "map_of kv ''items'' = Some v"
      by (cases "map_of kv ''items''") auto
    with items have "(\<exists>xs. v = JArr xs \<and> x \<in> set xs) \<or> x = v"
      by (cases v) auto
    then show ?thesis
    proof
      assume "\<exists>xs. v = JArr xs \<and> x \<in> set xs"
      then obtain xs where "v = JArr xs" "x \<in> set xs" by blast
      with size_element[of x xs] size_map_of[OF v] show ?thesis by simp
    next
      assume "x = v"
      with size_map_of[OF v] show ?thesis by simp
    qed
  qed
qed

function typeDeclarationsWellFormed :: "json \<Rightarrow> bool" where
  "typeDeclarationsWellFormed (JObj kv) =
     ((case map_of kv ''type'' of None \<Rightarrow> True | Some t \<Rightarrow> typeDeclarationOk t)
      \<and> list_all typeDeclarationsWellFormed (declaredSubschemas kv))"
| "typeDeclarationsWellFormed (JBool b) = True"
| "typeDeclarationsWellFormed JNull = True"
| "typeDeclarationsWellFormed JUndefined = True"
| "typeDeclarationsWellFormed (JNum n) = True"
| "typeDeclarationsWellFormed (JStr s) = True"
| "typeDeclarationsWellFormed (JArr xs) = True"
| "typeDeclarationsWellFormed (JFunction f) = True"
  by pat_completeness auto
termination
proof (relation "measure size")
  show "wf (measure size)" by simp
next
  fix kv :: "(string \<times> json) list" and x :: json
  assume "x \<in> set (declaredSubschemas kv)"
  from size_declaredSubschemas[OF this] show "(x, JObj kv) \<in> measure size" by simp
qed

definition ajvCompile :: "(json \<Rightarrow> bool) \<Rightarrow> json \<Rightarrow> bool" where
  "ajvCompile furtherChecks schema =
     ((case schema of JObj _ \<Rightarrow> True | _ \<Rightarrow> False)
      \<and> typeDeclarationsWellFormed schema \<and> furtherChecks schema)"

subsection \<open>The zod validators the converter builds\<close>

text \<open>
  Modelled from the spec: the zod library is not under src/. Section 4.2 of the specification
  lists the validators the converter uses: string, number, integer (a whole number), boolean,
  array with an item validator, the catch-all that accepts any value, a default, an optional
  wrapper, and the object of named fields whose result is the coerced output. Where the
  specification leaves the library's behaviour open the model follows zod 3, the version the
  sources are written against (\<open>error.errors\<close>, \<open>z.record(z.unknown())\<close>): the catch-all
  accepts every input, \<open>undefined\<close> included; a default replaces an \<open>undefined\<close> input and the
  inner validator then checks it; an object validator reads each declared key from the input
  (own or inherited), reports the issues of all its fields, drops keys it does not declare,
  never outputs the key \<open>__proto__\<close>, and omits a key whose result is \<open>undefined\<close> unless the
  key is \<open>in\<close> the input. An issue is a path and a message.
\<close>

datatype zod =
    ZString | ZNumber | ZInt | ZBoolean | ZArray zod | ZAny
  | ZDefault zod json | ZOptional zod | ZObject "(string \<times> zod) list"

type_synonym issue = "string list \<times> string"

definition parsedType :: "json \<Rightarrow> string" where
  "parsedType v = (case v of JNull \<Rightarrow> ''null'' | JUndefined \<Rightarrow> ''undefined''
     | JBool _ \<Rightarrow> ''boolean'' | JNum _ \<Rightarrow> ''number'' | JStr _ \<Rightarrow> ''string''
     | JArr _ \<Rightarrow> ''array'' | JObj _ \<Rightarrow> ''object'' | JFunction _ \<Rightarrow> ''function'')"

definition invalidType :: "string list \<Rightarrow> string \<Rightarrow> json \<Rightarrow> issue" where
  "invalidType path expected v =
     (path, if v = JUndefined then ''Required''
            else ''Expected '' @ expected @ '', received '' @ parsedType v)"

definition isInteger :: "rat \<Rightarrow> bool" where
  "isInteger n \<longleftrightarrow> of_int \<lfloor>n\<rfloor> = n"

text \<open>All issues of a list of results, or else all their outputs.\<close>

definition issuesOf :: "(issue list + 'a) list \<Rightarrow> issue list" where
  "issuesOf rs = concat (map (\<lambda>r. case r of Inl is \<Rightarrow> is | Inr _ \<Rightarrow> []) rs)"

definition outputsOf :: "(issue list + 'a) list \<Rightarrow> 'a list" where
  "outputsOf rs = concat (map (\<lambda>r. case r of Inl _ \<Rightarrow> [] | Inr v \<Rightarrow> [v]) rs)"

fun zodParse :: "zod \<Rightarrow> string list \<Rightarrow> json \<Rightarrow> issue list + json" where
  "zodParse ZString path v = (case v of JStr _ \<Rightarrow> Inr v | _ \<Rightarrow> Inl [invalidType path ''string'' v])"
| "zodParse ZNumber path v = (case v of JNum _ \<Rightarrow> Inr v | _ \<Rightarrow> Inl [invalidType path ''number'' v])"
| "zodParse ZInt path v =
     (case v of
        JNum n \<Rightarrow> if isInteger n then Inr v else Inl [(path, ''Expected integer, received float'')]
      | _ \<Rightarrow> Inl [invalidType path ''number'' v])"
| "zodParse ZBoolean path v = (case v of JBool _ \<Rightarrow> Inr v | _ \<Rightarrow> Inl [invalidType path ''boolean'' v])"
| "zodParse (ZArray item) path v =
     (case v of
        JArr xs \<Rightarrow>
          (let rs = map (\<lambda>(i, x). zodParse item (path @ [String_of_nat i]) x) (zip [0..<length xs] xs)
           in if issuesOf rs = [] then Inr (JArr (outputsOf rs)) else Inl (issuesOf rs))
      | _ \<Rightarrow> Inl [invalidType path ''array'' v])"
| "zodParse ZAny path v = Inr v"
| "zodParse (ZDefault inner d) path v = zodParse inner path (if v = JUndefined then d else v)"
| "zodParse (ZOptional inner) path v = (if v = JUndefined then Inr JUndefined else zodParse inner path v)"
| "zodParse (ZObject shape) path v =
     (case v of
        JObj kv \<Rightarrow>
          (let rs = map (\<lambda>(key, field). zodParse field (path @ [key]) (getProp v key)) shape
           in if issuesOf rs = []
              then Inr (JObj (filter (\<lambda>(key, out). key \<noteq> ''__proto__''
                                                    \<and> (out \<noteq> JUndefined \<or> hasKey v key))
                                     (zip (map fst shape) (outputsOf rs))))
              else Inl (issuesOf rs))
      | _ \<Rightarrow> Inl [invalidType path ''object'' v])"

text \<open>\<open>schema.parse(input)\<close>: the coerced value, or a \<open>ZodError\<close> carrying the issues.\<close>

definition zparse :: "zod \<Rightarrow> json \<Rightarrow> issue list + json" where
  "zparse schema input = zodParse schema [] input"

subsection \<open>The converter\<close>

function createZodFieldFromJsonSchema :: "json \<Rightarrow> bool \<Rightarrow> json \<Rightarrow> thrown + zod" where
  "createZodFieldFromJsonSchema jsonSchema isRequired defaultValue =
     (if nullish jsonSchema then Inl (cannotRead jsonSchema ''type'')
      else
        (case (if getProp jsonSchema ''type'' = JStr ''string'' then Inr ZString
               else if getProp jsonSchema ''type'' = JStr ''number'' then Inr ZNumber
               else if getProp jsonSchema ''type'' = JStr ''integer'' then Inr ZInt
               else if getProp jsonSchema ''type'' = JStr ''boolean'' then Inr ZBoolean
               else if getProp jsonSchema ''type'' = JStr ''array'' then
                 (if truthy (getProp jsonSchema ''items'')
                  then (case createZodFieldFromJsonSchema (getProp jsonSchema ''items'') True JUndefined of
                          Inl e \<Rightarrow> Inl e
                        | Inr itemSchema \<Rightarrow> Inr (ZArray itemSchema))
                  else Inr (ZArray ZAny))
               else Inr ZAny) of
           Inl e \<Rightarrow> Inl e
         | Inr schema \<Rightarrow>
             Inr (if defaultValue \<noteq> JUndefined then ZDefault schema defaultValue
                  else if \<not> isRequired then ZOptional schema
                  else schema)))"
  by pat_completeness auto
termination
proof (relation "measure (\<lambda>(j, r, d). size j)")
  show "wf (measure (\<lambda>(j, r, d). size j))" by simp
next
  fix jsonSchema :: json and isRequired :: bool and defaultValue :: json
  assume "truthy (getProp jsonSchema ''items'')"
  then have "size (getProp jsonSchema ''items'') < size jsonSchema"
    by (cases jsonSchema)
       (auto simp: truthy_def inheritedProp_def objectPrototypeKeys_def dest: size_map_of
             split: option.splits)
  then show "((getProp jsonSchema ''items'', True, JUndefined), jsonSchema, isRequired, defaultValue)
               \<in> measure (\<lambda>(j, r, d). size j)"
    by simp
qed

declare createZodFieldFromJsonSchema.simps [simp del]

text \<open>
  The loop shared, word for word, by \<open>convertJsonSchemaToMcpZod\<close> and
  \<open>createZodSchemaFromJsonSchemaManual\<close>: for each entry of \<open>properties\<close> it reads
  \<open>propSchema['default']\<close>, converts the field and assigns it to \<open>schemaFields[key]\<close>.
  \<open>schemaFields\<close> starts as \<open>{}\<close>; assigning to its key \<open>__proto__\<close> sets its prototype and adds
  no field.
\<close>

fun fieldsLoop :: "json list \<Rightarrow> (string \<times> json) list \<Rightarrow> thrown + (string \<times> zod) list" where
  "fieldsLoop requiredFields [] = Inr []"
| "fieldsLoop requiredFields ((key, propSchema) # rest) =
     (if nullish propSchema then Inl (cannotRead propSchema ''default'')
      else case createZodFieldFromJsonSchema propSchema (JStr key \<in> set requiredFields)
                  (getProp propSchema ''default'') of
             Inl e \<Rightarrow> Inl e
           | Inr field \<Rightarrow>
               (case fieldsLoop requiredFields rest of
                  Inl e \<Rightarrow> Inl e
                | Inr schemaFields \<Rightarrow>
                    Inr (if key = ''__proto__'' then schemaFields else (key, field) # schemaFields)))"

definition schemaFieldsOf :: "json \<Rightarrow> thrown + (string \<times> zod) list" where
  "schemaFieldsOf jsonSchema =
     (if nullish jsonSchema then Inl (cannotRead jsonSchema ''type'')
      else if getProp jsonSchema ''type'' = JStr ''object'' \<and> truthy (getProp jsonSchema ''properties'')
      then (case (if truthy (getProp jsonSchema ''required'')
                  then Set_elements (getProp jsonSchema ''required'') else Inr []) of
              Inl e \<Rightarrow> Inl e
            | Inr requiredFields \<Rightarrow>
                fieldsLoop requiredFields (Object_entries (getProp jsonSchema ''properties'')))
      else Inr [])"

definition convertJsonSchemaToMcpZod :: "json \<Rightarrow> thrown + (string \<times> zod) list" where
  "convertJsonSchemaToMcpZod jsonSchema = schemaFieldsOf jsonSchema"

definition createZodSchemaFromJsonSchemaManual :: "json \<Rightarrow> thrown + zod" where
  "createZodSchemaFromJsonSchemaManual jsonSchema =
     (case schemaFieldsOf jsonSchema of Inl e \<Rightarrow> Inl e | Inr schemaFields \<Rightarrow> Inr (ZObject schemaFields))"

text \<open>
  \<open>evalZodSchema\<close>. The text is first cleaned with
  \<^verbatim>\<open>replace(/^import.*?from.*?;?\n*/m, '')\<close>: the first line start followed by \<open>import\<close> and,
  later on the same line, \<open>from\<close> is searched; the match runs up to the first such \<open>from\<close>,
  then takes a semicolon if one follows at once and the line feeds after it (the lazy
  \<^verbatim>\<open>.*?\<close> before the optional tail matches nothing), and is removed. \<open>afterFrom\<close> gives the text
  behind the first \<open>from\<close> of the current line.
\<close>

definition isLineTerminator :: "char \<Rightarrow> bool" where
  "isLineTerminator c \<longleftrightarrow> c = CHR 0x0A \<or> c = CHR 0x0D"

fun afterFrom :: "string \<Rightarrow> string option" where
  "afterFrom [] = None"
| "afterFrom (c # cs) =
     (if take 4 (c # cs) = ''from'' then Some (drop 4 (c # cs))
      else if isLineTerminator c then None
      else afterFrom cs)"

fun removeImport :: "bool \<Rightarrow> string \<Rightarrow> string" where
  "removeImport atLineStart [] = []"
| "removeImport atLineStart (c # cs) =
     (case (if atLineStart \<and> take 6 (c # cs) = ''import'' then afterFrom (drop 6 (c # cs)) else None) of
        Some rest \<Rightarrow>
          dropWhile (\<lambda>x. x = CHR 0x0A)
            (case rest of [] \<Rightarrow> [] | x # xs \<Rightarrow> if x = CHR '';'' then xs else rest)
      | None \<Rightarrow> c # removeImport (isLineTerminator c) cs)"

text \<open>
  \<^verbatim>\<open>cleanedSchema.match(/z\.[^;]+/)\<close>: the first \<open>z.\<close> that is followed by a code unit other
  than a semicolon, with everything up to the next semicolon or the end of the text.
\<close>

fun schemaMatch :: "string \<Rightarrow> string option" where
  "schemaMatch (c # d # e # rest) =
     (if c = CHR ''z'' \<and> d = CHR ''.'' \<and> e \<noteq> CHR '';''
      then Some (c # d # takeWhile (\<lambda>x. x \<noteq> CHR '';'') (e # rest))
      else schemaMatch (d # e # rest))"
| "schemaMatch s = None"

text \<open>
  \<open>newFunction body\<close> stands for \<^verbatim>\<open>new Function('z', body)(z)\<close>: the validator the body
  evaluates to with the zod namespace bound to \<open>z\<close>, or what constructing or calling the
  function throws (a \<open>SyntaxError\<close> when the body does not parse). Whatever is thrown inside
  \<open>evalZodSchema\<close> is caught there and answered with \<open>z.any()\<close>.
\<close>

definition evalZodSchema :: "(string \<Rightarrow> thrown + zod) \<Rightarrow> string \<Rightarrow> zod" where
  "evalZodSchema newFunction zodSchemaString =
     (let cleanedSchema = removeImport True zodSchemaString
      in case schemaMatch cleanedSchema of
           None \<Rightarrow> ZAny
         | Some schemaDefinition \<Rightarrow>
             (case newFunction (''return '' @ schemaDefinition) of
                Inl e \<Rightarrow> ZAny
              | Inr schema \<Rightarrow> schema))"

text \<open>
  \<open>convertJsonSchemaToZod\<close> asks the third-party generator \<open>jsonSchemaToZod\<close> for the text of
  a zod schema (\<open>generate\<close>: the text, or what the generator throws) and hands the text to
  \<open>evalZodSchema\<close>; only when the generator throws does the manual conversion run.
\<close>

definition convertJsonSchemaToZod ::
  "(json \<Rightarrow> thrown + string) \<Rightarrow> (string \<Rightarrow> thrown + zod) \<Rightarrow> json \<Rightarrow> thrown + zod" where
  "convertJsonSchemaToZod generate newFunction jsonSchema =
     (case generate jsonSchema of
        Inr zodSchemaString \<Rightarrow> Inr (evalZodSchema newFunction zodSchemaString)
      | Inl e \<Rightarrow> createZodSchemaFromJsonSchemaManual jsonSchema)"

subsection \<open>Facts about the validators\<close>




















definition userIdSchema :: json where
  "userIdSchema = JObj [(''type'', JStr ''object''),
      (''properties'', JObj [(''user_id'', JObj [(''type'', JStr ''integer'')])]),
      (''required'', JArr [JStr ''user_id''])]"



subsection \<open>Sample schemas and collaborators\<close>

definition untypedRequiredSchema :: json where
  "untypedRequiredSchema = JObj [(''type'', JStr ''object''),
      (''properties'', JObj [(''x'', JObj [])]),
      (''required'', JArr [JStr ''x''])]"

definition badDefaultSchema :: json where
  "badDefaultSchema = JObj [(''type'', JStr ''object''),
      (''properties'', JObj [(''n'', JObj [(''type'', JStr ''integer''), (''default'', JStr ''ten'')])])]"


text \<open>The further checks of a compiler that finds nothing else to object to.\<close>

definition passingChecks :: "json \<Rightarrow> bool" where
  "passingChecks schema = True"


definition doubleQuoted :: "string \<Rightarrow> string" where
  "doubleQuoted s = [CHR 0x22] @ s @ [CHR 0x22]"

definition userIdText :: string where
  "userIdText = ''z.object({ '' @ doubleQuoted ''user_id'' @ '': z.number().int() })''"

definition untypedRequiredText :: string where
  "untypedRequiredText = ''z.object({ '' @ doubleQuoted ''x'' @ '': z.any() })''"

definition badDefaultText :: string where
  "badDefaultText = ''z.object({ '' @ doubleQuoted ''n'' @ '': z.number().int().default(''
                      @ doubleQuoted ''ten'' @ '') })''"

definition sampleGenerator :: "json \<Rightarrow> thrown + string" where
  "sampleGenerator schema =
     (if schema = userIdSchema then Inr userIdText
      else if schema = untypedRequiredSchema then Inr untypedRequiredText
      else if schema = badDefaultSchema then Inr badDefaultText
      else Inl (Error ''Unsupported schema''))"

definition sampleNewFunction :: "string \<Rightarrow> thrown + zod" where
  "sampleNewFunction body =
     (if body = ''return '' @ userIdText then Inr (ZObject [(''user_id'', ZInt)])
      else if body = ''return '' @ untypedRequiredText then Inr (ZObject [(''x'', ZAny)])
      else if body = ''return '' @ badDefaultText
        then Inr (ZObject [(''n'', ZDefault ZInt (JStr ''ten''))])
      else Inl (Error ''Unexpected end of input''))"

lemmas convert_simps =
  createZodSchemaFromJsonSchemaManual_def schemaFieldsOf_def nullish_def truthy_def
  createZodFieldFromJsonSchema.simps inheritedProp_def objectPrototypeKeys_def


lemma evalZodSchema_samples:
  "evalZodSchema sampleNewFunction userIdText = ZObject [(''user_id'', ZInt)]"
  "evalZodSchema sampleNewFunction untypedRequiredText = ZObject [(''x'', ZAny)]"
  "evalZodSchema sampleNewFunction badDefaultText = ZObject [(''n'', ZDefault ZInt (JStr ''ten''))]"
  by (simp_all add: evalZodSchema_def sampleNewFunction_def userIdText_def untypedRequiredText_def
      badDefaultText_def doubleQuoted_def isLineTerminator_def)

lemma convert_samples:
  "convertJsonSchemaToZod sampleGenerator sampleNewFunction userIdSchema
     = Inr (ZObject [(''user_id'', ZInt)])"
  "convertJsonSchemaToZod sampleGenerator sampleNewFunction untypedRequiredSchema
     = Inr (ZObject [(''x'', ZAny)])"
  "convertJsonSchemaToZod sampleGenerator sampleNewFunction badDefaultSchema
     = Inr (ZObject [(''n'', ZDefault ZInt (JStr ''ten''))])"
  by (simp_all add: convertJsonSchemaToZod_def sampleGenerator_def evalZodSchema_samples
      userIdSchema_def untypedRequiredSchema_def badDefaultSchema_def)



subsection \<open>Claims about the value validator\<close>




subsection \<open>Claims about \<open>validateJsonSchema\<close>\<close>

definition invalidTypeSchema :: json where
  "invalidTypeSchema = JObj [(''type'', JStr ''invalid_type''), (''properties'', JObj [])]"

text \<open>
  C3 as stated fails: an object whose \<open>type\<close> is not a JSON-Schema type name is rejected, as
  the unit test "rejects schema with invalid type" expects.
\<close>

theorem validateJsonSchema_unknown_type_counterexample:
  "validateJsonSchema (ajvCompile passingChecks) invalidTypeSchema = False"
  by (simp add: invalidTypeSchema_def validateJsonSchema_def typeofObject_def ajvCompile_def
      jsonSchemaTypeNames_def)

text \<open>
  C3 (as amended). \<open>validateJsonSchema\<close> returns false for \<open>null\<close>, \<open>undefined\<close>, a bare
  string, a number and a boolean whatever the compiler does, and for an object or an array it
  returns the compiler's verdict. With a compiler that meets the contract of the
  specification, whatever its further checks, the result is true only if the candidate is an
  object whose type declarations are well-formed: an array is rejected, and an object whose
  declared \<open>type\<close> is not a JSON-Schema type name is rejected.
\<close>

theorem validateJsonSchema_verdicts:
  "validateJsonSchema ajvCompiles JNull = False
   \<and> validateJsonSchema ajvCompiles JUndefined = False
   \<and> validateJsonSchema ajvCompiles (JStr s) = False
   \<and> validateJsonSchema ajvCompiles (JNum n) = False
   \<and> validateJsonSchema ajvCompiles (JBool b) = False
   \<and> validateJsonSchema ajvCompiles (JObj kv) = ajvCompiles (JObj kv)
   \<and> validateJsonSchema ajvCompiles (JArr xs) = ajvCompiles (JArr xs)
   \<and> validateJsonSchema (ajvCompile furtherChecks) (JArr xs) = False
   \<and> (map_of kv ''type'' = Some (JStr t) \<and> t \<notin> set jsonSchemaTypeNames
        \<longrightarrow> validateJsonSchema (ajvCompile furtherChecks) (JObj kv) = False)
   \<and> (validateJsonSchema (ajvCompile furtherChecks) schema
        \<longrightarrow> (\<exists>fields. schema = JObj fields) \<and> typeDeclarationsWellFormed schema)"
  by (cases schema) (simp_all add: validateJsonSchema_def typeofObject_def ajvCompile_def)

theorem validateJsonSchema_verdicts_witness:
  "validateJsonSchema (ajvCompile passingChecks) invalidTypeSchema = False
   \<and> validateJsonSchema (ajvCompile passingChecks) userIdSchema
   \<and> typeDeclarationsWellFormed userIdSchema"
proof -
  let ?bad = "[(''type'', JStr ''invalid_type''), (''properties'', JObj [])]"
  have "map_of ?bad ''type'' = Some (JStr ''invalid_type'') \<and> ''invalid_type'' \<notin> set jsonSchemaTypeNames
        \<longrightarrow> validateJsonSchema (ajvCompile passingChecks) (JObj ?bad) = False"
    using validateJsonSchema_verdicts[of _ _ _ _ ?bad _ passingChecks "''invalid_type''"] by blast
  then have 1: "validateJsonSchema (ajvCompile passingChecks) (JObj ?bad) = False"
    by (simp add: jsonSchemaTypeNames_def)
  have 2: "validateJsonSchema (ajvCompile passingChecks) userIdSchema"
    by (simp add: validateJsonSchema_def typeofObject_def ajvCompile_def passingChecks_def
        userIdSchema_def jsonSchemaTypeNames_def declaredSubschemas_def)
  have "validateJsonSchema (ajvCompile passingChecks) userIdSchema
        \<longrightarrow> (\<exists>fields. userIdSchema = JObj fields) \<and> typeDeclarationsWellFormed userIdSchema"
    using validateJsonSchema_verdicts[of _ _ _ _ _ _ passingChecks _ userIdSchema] by blast
  with 2 have 3: "typeDeclarationsWellFormed userIdSchema" by blast
  from 1 2 3 show ?thesis unfolding invalidTypeSchema_def by blast
qed

section \<open>Response envelope (src/responses.ts)\<close>

text \<open>
  An \<open>MCPResponse\<close>: the texts of its content units, all of type \<open>text\<close>, and the optional
  \<open>isError\<close> flag (\<open>None\<close> when the field is absent).
\<close>

record MCPResponse =
  content :: "string list"
  isError :: "bool option"

definition createSuccessResponse :: "string \<Rightarrow> MCPResponse" where
  "createSuccessResponse message = \<lparr>content = [message], isError = None\<rparr>"

definition errorMessage :: "thrown \<Rightarrow> string" where
  "errorMessage error = (case error of Error m \<Rightarrow> m | NonError _ \<Rightarrow> ''Unknown error'')"

definition createErrorResponse :: "string \<Rightarrow> thrown \<Rightarrow> MCPResponse" where
  "createErrorResponse operation error =
     \<lparr>content = [''Error '' @ operation @ '': '' @ errorMessage error], isError = Some True\<rparr>"

text \<open>
  What the wrapped function does when \<open>withErrorHandling\<close> calls it with the logger: the
  messages it passes to \<open>log\<close>, in order, and how it ends. A synchronous function returns a
  string or throws; an asynchronous one returns a promise, which is fulfilled with a string or
  rejected, the messages being those logged until then.
\<close>

datatype fnBehaviour =
    Returns "string list" string
  | Throws "string list" thrown
  | Fulfils "string list" string
  | Rejects "string list" thrown

text \<open>The variable \<open>stage\<close>: initially empty, overwritten by every call of \<open>log\<close>.\<close>

definition stageAfter :: "string list \<Rightarrow> string" where
  "stageAfter msgs = fold (\<lambda>msg stage. '' while '' @ msg) msgs ''''"

text \<open>
  \<open>withErrorHandling\<close>. For a synchronous function the result is the response returned; for
  an asynchronous one it is the response the returned promise is fulfilled with: \<open>then\<close>
  wraps the value, \<open>catch\<close> turns a rejection into an error response, so that promise is
  never rejected. Output on the console is not part of the result and is left out.
\<close>

definition withErrorHandling :: "string \<Rightarrow> fnBehaviour \<Rightarrow> MCPResponse" where
  "withErrorHandling operation fn =
     (case fn of
        Returns msgs result \<Rightarrow> createSuccessResponse result
      | Throws msgs error \<Rightarrow> createErrorResponse (operation @ stageAfter msgs) error
      | Fulfils msgs v \<Rightarrow> createSuccessResponse v
      | Rejects msgs error \<Rightarrow> createErrorResponse (operation @ stageAfter msgs) error)"

lemma stageAfter_last:
  "stageAfter msgs = (if msgs = [] then '''' else '' while '' @ last msgs)"
proof -
  have "fold (\<lambda>msg stage. '' while '' @ msg) msgs s = (if msgs = [] then s else '' while '' @ last msgs)" for s
    by (induction msgs arbitrary: s) auto
  then show ?thesis by (simp add: stageAfter_def)
qed

text \<open>
  C9. Whatever the wrapped function does, \<open>withErrorHandling\<close> returns a response. If the
  function throws or its promise is rejected, the response has the error flag, and its single
  text is \<open>Error\<close>, the operation description, \<open>while\<close> and the last message logged when
  there is one, and the error's message: it contains the operation and that last stage. If
  the function returns or its promise is fulfilled, the response is the success envelope
  whose single text is the function's result.
\<close>

theorem withErrorHandling_envelope:
  "(fn = Throws msgs error \<or> fn = Rejects msgs error \<longrightarrow>
      isError (withErrorHandling operation fn) = Some True
      \<and> content (withErrorHandling operation fn)
          = [''Error '' @ operation @ (if msgs = [] then '''' else '' while '' @ last msgs)
               @ '': '' @ errorMessage error]
      \<and> (\<exists>text. content (withErrorHandling operation fn) = [text] \<and> sublist operation text
            \<and> (msgs \<noteq> [] \<longrightarrow> sublist (last msgs) text)))
   \<and> (fn = Returns msgs result \<or> fn = Fulfils msgs result \<longrightarrow>
      withErrorHandling operation fn = \<lparr>content = [result], isError = None\<rparr>)"
proof -
  let ?stage = "if msgs = [] then '''' else '' while '' @ last msgs"
  let ?text = "''Error '' @ operation @ ?stage @ '': '' @ errorMessage error"
  have 1: "sublist operation ?text"
    unfolding sublist_def by (intro exI[of _ "''Error ''"] exI[of _ "?stage @ '': '' @ errorMessage error"]) simp
  have 2: "sublist (last msgs) ?text" if "msgs \<noteq> []"
    unfolding sublist_def using that
    by (intro exI[of _ "''Error '' @ operation @ '' while ''"] exI[of _ "'': '' @ errorMessage error"]) simp
  show ?thesis
    using 1 2
    by (auto simp: withErrorHandling_def createErrorResponse_def createSuccessResponse_def
        stageAfter_last)
qed

theorem withErrorHandling_envelope_witness:
  "withErrorHandling ''operation'' (Throws [''step 1'', ''step 2'', ''step 3''] (Error ''Failed''))
     = \<lparr>content = [''Error operation while step 3: Failed''], isError = Some True\<rparr>
   \<and> withErrorHandling ''operation'' (Rejects [] (NonError JNull))
     = \<lparr>content = [''Error operation: Unknown error''], isError = Some True\<rparr>
   \<and> withErrorHandling ''async operation'' (Fulfils [''working''] ''Async result'')
     = \<lparr>content = [''Async result''], isError = None\<rparr>"
  using withErrorHandling_envelope[of "Throws [''step 1'', ''step 2'', ''step 3''] (Error ''Failed'')"
      "[''step 1'', ''step 2'', ''step 3'']" "Error ''Failed''" "''operation''"]
    withErrorHandling_envelope[of "Rejects [] (NonError JNull)" "[]" "NonError JNull" "''operation''"]
    withErrorHandling_envelope[of "Fulfils [''working''] ''Async result''" "[''working'']" _
      "''async operation''" "''Async result''"]
  by (auto simp: errorMessage_def MCPResponse.equality)

section \<open>Tool definitions and persistence (src/types.ts, src/storage.ts)\<close>

text \<open>
  \<open>SaveQueryToolParams\<close> and \<open>SavedToolConfig\<close> share three fields, which are the common
  parent record here.
\<close>

record QueryDefinition =
  description :: string
  sql_query :: string
  parameter_schema :: json

record SaveQueryToolParams = QueryDefinition +
  tool_name :: string
  overwrite :: "bool option"

record SavedToolConfig = QueryDefinition +
  name :: string
  sql_prepared :: string
  parameter_order :: "string list"

text \<open>
  A file of the tools directory holds text. \<open>Document j\<close> is the text of the JSON document
  \<open>j\<close>, as \<open>JSON.stringify\<close> writes it and \<open>JSON.parse\<close> reads it back; \<open>Malformed m\<close> is a
  text \<open>JSON.parse\<close> rejects, with the message \<open>m\<close> of the error it throws.
\<close>

datatype fileContent = Document json | Malformed string

text \<open>
  What \<open>JSON.stringify\<close> keeps of a value: a property whose value is \<open>undefined\<close> or a
  function is dropped, such an array element becomes \<open>null\<close>.
\<close>

definition unserializable :: "json \<Rightarrow> bool" where
  "unserializable v = (case v of JUndefined \<Rightarrow> True | JFunction _ \<Rightarrow> True | _ \<Rightarrow> False)"

fun stringified :: "json \<Rightarrow> json" where
  "stringified (JArr xs) = JArr (map (\<lambda>x. if unserializable x then JNull else stringified x) xs)"
| "stringified (JObj kv) =
     JObj (map (\<lambda>(k, v). (k, stringified v)) (filter (\<lambda>(k, v). \<not> unserializable v) kv))"
| "stringified v = v"

definition configJson :: "SavedToolConfig \<Rightarrow> json" where
  "configJson config = JObj [
     (''name'', JStr (name config)),
     (''description'', JStr (description config)),
     (''sql_query'', JStr (sql_query config)),
     (''sql_prepared'', JStr (sql_prepared config)),
     (''parameter_schema'', parameter_schema config),
     (''parameter_order'', JArr (map JStr (parameter_order config)))]"

text \<open>\<open>isValidToolConfig\<close>, and the fields of a parsed document read as a \<open>SavedToolConfig\<close>.\<close>

definition isString :: "json \<Rightarrow> bool" where
  "isString v = (case v of JStr _ \<Rightarrow> True | _ \<Rightarrow> False)"

definition isValidToolConfig :: "json \<Rightarrow> bool" where
  "isValidToolConfig config \<longleftrightarrow>
     typeofObject config \<and> config \<noteq> JNull
     \<and> isString (getProp config ''name'')
     \<and> isString (getProp config ''description'')
     \<and> isString (getProp config ''sql_query'')
     \<and> isString (getProp config ''sql_prepared'')
     \<and> typeofObject (getProp config ''parameter_schema'')
     \<and> (case getProp config ''parameter_order'' of JArr vs \<Rightarrow> list_all isString vs | _ \<Rightarrow> False)"

definition asString :: "json \<Rightarrow> string" where
  "asString v = (case v of JStr s \<Rightarrow> s | _ \<Rightarrow> [])"

definition asConfig :: "json \<Rightarrow> SavedToolConfig" where
  "asConfig config =
     \<lparr>description = asString (getProp config ''description''),
      sql_query = asString (getProp config ''sql_query''),
      parameter_schema = getProp config ''parameter_schema'',
      name = asString (getProp config ''name''),
      sql_prepared = asString (getProp config ''sql_prepared''),
      parameter_order = (case getProp config ''parameter_order'' of
                           JArr vs \<Rightarrow> map asString vs | _ \<Rightarrow> [])\<rparr>"

section \<open>The world the handlers act on\<close>

text \<open>
  Calls that leave the program: the file system and the protocol server. Each may fail;
  \<open>fault\<close> of the collaborators gives the message of the error it then throws. The world
  records the calls made, in order.
\<close>

datatype sysCall =
    MkdirSync string | WriteFileSync string | ReadFileSync string | UnlinkSync string
  | RegisterTool string | UpdateTool string | RemoveTool string

datatype dirState = NoDataDir | DataDirOnly | ToolsDirPresent

text \<open>A dynamic handler is the closure over the tool definition and its value validator.\<close>

record dynamicToolHandler =
  toolConfig :: SavedToolConfig
  paramSchema :: zod

text \<open>
  Modelled from the spec: the protocol server and its \<open>RegisteredTool\<close> handles (the MCP SDK)
  are not under src/. By section 3 of the specification a registry entry pairs a tool name
  with a live handle supporting \<open>update(newBehavior)\<close> and \<open>remove()\<close>. The server's table maps
  a name to what it would run; a handle names its row; \<open>registerTool\<close> adds a row, \<open>update\<close>
  replaces it, \<open>remove\<close> deletes it, and each may throw.
\<close>

record toolEntry =
  title :: string
  toolDescription :: string
  inputSchema :: "(string \<times> zod) list"
  callback :: dynamicToolHandler

datatype RegisteredTool = RegisteredTool string

record world =
  registeredTools :: "string \<rightharpoonup> RegisteredTool"
  serverTools :: "string \<rightharpoonup> toolEntry"
  dirs :: dirState
  files :: "string \<rightharpoonup> fileContent"
  calls :: "sysCall list"

text \<open>
  The result of \<open>pool.query\<close>: its \<open>rows\<close>, its \<open>rowCount\<close> and its \<open>fields\<close> (here
  \<open>resultFields\<close>), each field an object with a \<open>name\<close> and a \<open>dataTypeID\<close>.
\<close>

record QueryResult =
  rows :: "json list"
  rowCount :: json
  resultFields :: "json list"

text \<open>
  What lies outside the repository: the verdict of \<open>ajv.compile\<close>, the generator
  \<open>jsonSchemaToZod\<close> with the evaluation of the text it returns (see \<open>evalZodSchema\<close>), the
  failures of the outside calls, the query executor, and \<open>JSON.stringify\<close> of a result.
\<close>

record collaborators =
  ajv :: "json \<Rightarrow> bool"
  jsonSchemaToZod :: "json \<Rightarrow> thrown + string"
  newFunction :: "string \<Rightarrow> thrown + zod"
  fault :: "sysCall \<Rightarrow> string option"
  poolQuery :: "string \<Rightarrow> json list \<Rightarrow> thrown + QueryResult"
  JSON_stringify :: "json \<Rightarrow> string"

definition perform :: "collaborators \<Rightarrow> sysCall \<Rightarrow> (world \<Rightarrow> world) \<Rightarrow> world \<Rightarrow> (thrown + unit) \<times> world" where
  "perform c call effect w =
     (let w' = w\<lparr>calls := calls w @ [call]\<rparr>
      in case fault c call of
           Some message \<Rightarrow> (Inl (Error message), w')
         | None \<Rightarrow> (Inr (), effect w'))"

definition DATA_DIR :: string where
  "DATA_DIR = ''./data''"

definition TOOLS_DIR :: string where
  "TOOLS_DIR = ''data/tools''"

definition toolPath :: "string \<Rightarrow> string" where
  "toolPath toolName = TOOLS_DIR @ ''/'' @ toolName @ ''.json''"


definition ensureDataDirectory :: "collaborators \<Rightarrow> world \<Rightarrow> (thrown + unit) \<times> world" where
  "ensureDataDirectory c w =
     (case (if dirs w = NoDataDir
            then perform c (MkdirSync DATA_DIR) (\<lambda>w. w\<lparr>dirs := DataDirOnly\<rparr>) w
            else (Inr (), w)) of
        (Inl e, w1) \<Rightarrow> (Inl e, w1)
      | (Inr u, w1) \<Rightarrow>
          if dirs w1 \<noteq> ToolsDirPresent
          then perform c (MkdirSync TOOLS_DIR) (\<lambda>w. w\<lparr>dirs := ToolsDirPresent\<rparr>) w1
          else (Inr (), w1))"

definition saveToolToFile ::
  "collaborators \<Rightarrow> string \<Rightarrow> SavedToolConfig \<Rightarrow> world \<Rightarrow> (thrown + unit) \<times> world" where
  "saveToolToFile c toolName config w =
     (case ensureDataDirectory c w of
        (Inl e, w1) \<Rightarrow> (Inl e, w1)
      | (Inr u, w1) \<Rightarrow>
          (case perform c (WriteFileSync (toolPath toolName))
                  (\<lambda>w. w\<lparr>files := (files w)(toolPath toolName \<mapsto>
                                        Document (stringified (configJson config)))\<rparr>) w1 of
             (Inl error, w2) \<Rightarrow>
               (Inl (Error (''Failed to save tool '' @ quoted toolName @ '' to file: ''
                            @ errorMessage error)), w2)
           | (Inr u, w2) \<Rightarrow> (Inr (), w2)))"

definition loadToolFromFile ::
  "collaborators \<Rightarrow> string \<Rightarrow> world \<Rightarrow> (thrown + SavedToolConfig option) \<times> world" where
  "loadToolFromFile c toolName w =
     (case files w (toolPath toolName) of
        None \<Rightarrow> (Inr None, w)
      | Some text \<Rightarrow>
          (case (case perform c (ReadFileSync (toolPath toolName)) (\<lambda>w. w) w of
                   (Inl e, w1) \<Rightarrow> (Inl e, w1)
                 | (Inr u, w1) \<Rightarrow>
                     (case text of
                        Malformed message \<Rightarrow> (Inl (Error message), w1)
                      | Document config \<Rightarrow>
                          if \<not> isValidToolConfig config
                          then (Inl (Error (''Invalid tool configuration in file: ''
                                            @ toolPath toolName)), w1)
                          else (Inr (Some (asConfig config)), w1))) of
             (Inl error, w1) \<Rightarrow>
               (Inl (Error (''Failed to load tool '' @ quoted toolName @ '' from file: ''
                            @ errorMessage error)), w1)
           | (Inr config, w1) \<Rightarrow> (Inr config, w1)))"

definition deleteToolFile :: "collaborators \<Rightarrow> string \<Rightarrow> world \<Rightarrow> (thrown + unit) \<times> world" where
  "deleteToolFile c toolName w =
     (if files w (toolPath toolName) = None then (Inr (), w)
      else case perform c (UnlinkSync (toolPath toolName))
                  (\<lambda>w. w\<lparr>files := (files w)(toolPath toolName := None)\<rparr>) w of
             (Inl error, w1) \<Rightarrow>
               (Inl (Error (''Failed to delete tool file '' @ quoted toolName @ '': ''
                            @ errorMessage error)), w1)
           | (Inr u, w1) \<Rightarrow> (Inr (), w1))"

text \<open>
  Modelled from the spec: \<open>server.registerTool\<close> and the \<open>update\<close> and \<open>remove\<close> operations
  of a handle belong to the MCP SDK, which is not under src/. They act on the server's table
  as section 3 of the specification describes a registry entry, and each may throw.
\<close>

definition serverRegisterTool ::
  "collaborators \<Rightarrow> string \<Rightarrow> toolEntry \<Rightarrow> world \<Rightarrow> (thrown + RegisteredTool) \<times> world" where
  "serverRegisterTool c toolName entry w =
     (case perform c (RegisterTool toolName)
             (\<lambda>w. w\<lparr>serverTools := (serverTools w)(toolName \<mapsto> entry)\<rparr>) w of
        (Inl e, w1) \<Rightarrow> (Inl e, w1)
      | (Inr u, w1) \<Rightarrow> (Inr (RegisteredTool toolName), w1))"

fun toolUpdate :: "collaborators \<Rightarrow> RegisteredTool \<Rightarrow> toolEntry \<Rightarrow> world \<Rightarrow> (thrown + unit) \<times> world" where
  "toolUpdate c (RegisteredTool n) entry w =
     perform c (UpdateTool n) (\<lambda>w. w\<lparr>serverTools := (serverTools w)(n \<mapsto> entry)\<rparr>) w"

fun toolRemove :: "collaborators \<Rightarrow> RegisteredTool \<Rightarrow> world \<Rightarrow> (thrown + unit) \<times> world" where
  "toolRemove c (RegisteredTool n) w =
     perform c (RemoveTool n) (\<lambda>w. w\<lparr>serverTools := (serverTools w)(n := None)\<rparr>) w"

section \<open>Dynamic tools (src/dynamicToolHandler.ts)\<close>

definition createDynamicToolHandler :: "collaborators \<Rightarrow> SavedToolConfig \<Rightarrow> thrown + dynamicToolHandler" where
  "createDynamicToolHandler c config =
     (case convertJsonSchemaToZod (jsonSchemaToZod c) (newFunction c) (parameter_schema config) of
        Inl e \<Rightarrow> Inl e
      | Inr schema \<Rightarrow> Inr \<lparr>toolConfig = config, paramSchema = schema\<rparr>)"

section \<open>Saving a query (tools/saveQuery.ts)\<close>

definition registerToolWithServer ::
  "collaborators \<Rightarrow> string \<Rightarrow> SavedToolConfig \<Rightarrow> world \<Rightarrow> (thrown + RegisteredTool) \<times> world" where
  "registerToolWithServer c toolName config w =
     (case createDynamicToolHandler c config of
        Inl e \<Rightarrow> (Inl e, w)
      | Inr dynamicHandler \<Rightarrow>
          (case convertJsonSchemaToMcpZod (parameter_schema config) of
             Inl e \<Rightarrow> (Inl e, w)
           | Inr schemaFields \<Rightarrow>
               (case serverRegisterTool c toolName
                       \<lparr>title = description config, toolDescription = description config,
                        inputSchema = schemaFields, callback = dynamicHandler\<rparr> w of
                  (Inl e, w1) \<Rightarrow> (Inl e, w1)
                | (Inr registeredTool, w1) \<Rightarrow>
                    (Inr registeredTool,
                     w1\<lparr>registeredTools := (registeredTools w1)(toolName \<mapsto> registeredTool)\<rparr>))))"

definition updateExistingTool ::
  "collaborators \<Rightarrow> string \<Rightarrow> SavedToolConfig \<Rightarrow> world \<Rightarrow> (thrown + unit) \<times> world" where
  "updateExistingTool c toolName config w =
     (case registeredTools w toolName of
        None \<Rightarrow> (Inl (Error (''Registered tool '' @ quoted toolName @ '' not found for update'')), w)
      | Some existingTool \<Rightarrow>
          (case createDynamicToolHandler c config of
             Inl e \<Rightarrow> (Inl e, w)
           | Inr dynamicHandler \<Rightarrow>
               (case convertJsonSchemaToMcpZod (parameter_schema config) of
                  Inl e \<Rightarrow> (Inl e, w)
                | Inr schemaFields \<Rightarrow>
                    toolUpdate c existingTool
                      \<lparr>title = description config, toolDescription = description config,
                       inputSchema = schemaFields, callback = dynamicHandler\<rparr> w)))"

text \<open>\<open>Array.prototype.join\<close> on strings.\<close>

fun join :: "string \<Rightarrow> string list \<Rightarrow> string" where
  "join sep [] = []"
| "join sep [x] = x"
| "join sep (x # y # ys) = x @ sep @ join sep (y # ys)"

definition parameterSummary :: "string list \<Rightarrow> string" where
  "parameterSummary namedParams =
     '' with '' @ String_of_nat (length namedParams) @ '' parameter''
       @ (if length namedParams = 1 then [] else ''s'') @ '': ''
       @ (if join '', '' namedParams = [] then ''none'' else join '', '' namedParams)"

text \<open>
  The body passed to \<open>withErrorHandling\<close> returns the messages it logged and how it ended,
  with the world it leaves.
\<close>

type_synonym 'a run = "(string list \<times> (thrown + 'a)) \<times> world"

definition saveQuery_fn :: "collaborators \<Rightarrow> SaveQueryToolParams \<Rightarrow> world \<Rightarrow> string run" where
  "saveQuery_fn c params w =
     (let toolExists = (registeredTools w (tool_name params) \<noteq> None);
          overwriteFlag = (case overwrite params of Some b \<Rightarrow> b | None \<Rightarrow> False);
          isUpdate = (toolExists \<and> overwriteFlag);
          isCreate = (\<not> toolExists)
      in if toolExists \<and> \<not> overwriteFlag
         then (([], Inl (Error (''Tool with name '' @ quoted (tool_name params)
                                @ '' already exists. Set overwrite=true to update it.''))), w)
         else if \<not> validateJsonSchema (ajv c) (parameter_schema params)
         then (([''validating parameter schema''],
                Inl (Error ''Invalid parameter_schema: must be a valid JSON Schema object'')), w)
         else
           (let mapping = parseNamedParameters (sql_query params);
                namedParams = extractNamedParameters (sql_query params);
                config = \<lparr>description = description params,
                          sql_query = sql_query params,
                          parameter_schema = parameter_schema params,
                          name = tool_name params,
                          sql_prepared = sql mapping,
                          parameter_order = parameterOrder mapping\<rparr>;
                logged = [''validating parameter schema'', ''parsing SQL parameters'',
                          ''persisting tool to file'']
            in case saveToolToFile c (tool_name params) config w of
                 (Inl e, w1) \<Rightarrow> ((logged, Inl e), w1)
               | (Inr u, w1) \<Rightarrow>
                   if isCreate
                   then (case registerToolWithServer c (tool_name params) config w1 of
                           (Inl e, w2) \<Rightarrow>
                             ((logged @ [''registering new tool in MCP server''], Inl e), w2)
                         | (Inr registeredTool, w2) \<Rightarrow>
                             ((logged @ [''registering new tool in MCP server''],
                               Inr (''Successfully created tool '' @ quoted (tool_name params)
                                    @ parameterSummary namedParams)), w2))
                   else if isUpdate
                   then (case updateExistingTool c (tool_name params) config w1 of
                           (Inl e, w2) \<Rightarrow>
                             ((logged @ [''updating existing tool in MCP server''], Inl e), w2)
                         | (Inr u, w2) \<Rightarrow>
                             ((logged @ [''updating existing tool in MCP server''],
                               Inr (''Successfully updated tool '' @ quoted (tool_name params)
                                    @ parameterSummary namedParams)), w2))
                   else ((logged, Inl (Error ''Unexpected state in save_query handler'')), w1)))"

definition settle :: "string list \<times> (thrown + string) \<Rightarrow> fnBehaviour" where
  "settle r = (case r of (msgs, Inl e) \<Rightarrow> Rejects msgs e | (msgs, Inr v) \<Rightarrow> Fulfils msgs v)"

definition finish :: "string list \<times> (thrown + string) \<Rightarrow> fnBehaviour" where
  "finish r = (case r of (msgs, Inl e) \<Rightarrow> Throws msgs e | (msgs, Inr v) \<Rightarrow> Returns msgs v)"

definition saveQuery_handler :: "collaborators \<Rightarrow> SaveQueryToolParams \<Rightarrow> world \<Rightarrow> MCPResponse \<times> world" where
  "saveQuery_handler c params w =
     (case saveQuery_fn c params w of
        (r, w') \<Rightarrow> (withErrorHandling (''saving tool '' @ quoted (tool_name params)) (settle r), w'))"

section \<open>Deleting a saved query (src/tools/deleteSavedQuery.ts)\<close>

definition PROTECTED_TOOLS :: "string set" where
  "PROTECTED_TOOLS = {
     ''execute_sql_query'',
     ''save_query'',
     ''delete_saved_query'',
     ''list_saved_queries'',
     ''show_saved_query'',
     ''list_schemas'',
     ''list_tables'',
     ''describe_table'',
     ''list_views'',
     ''describe_view''}"

definition deleteSavedQuery_fn :: "collaborators \<Rightarrow> string \<Rightarrow> world \<Rightarrow> string run" where
  "deleteSavedQuery_fn c toolName w =
     (if toolName \<in> PROTECTED_TOOLS
      then (([], Inl (Error (''Cannot delete core tool '' @ quoted toolName))), w)
      else case registeredTools w toolName of
             None \<Rightarrow> (([], Inl (Error (''Saved query '' @ quoted toolName @ '' not found''))), w)
           | Some registeredTool \<Rightarrow>
               (case toolRemove c registeredTool w of
                  (Inl e, w1) \<Rightarrow> (([''removing tool from MCP server''], Inl e), w1)
                | (Inr u, w1) \<Rightarrow>
                    (case deleteToolFile c toolName
                            (w1\<lparr>registeredTools := (registeredTools w1)(toolName := None)\<rparr>) of
                       (Inl e, w2) \<Rightarrow>
                         (([''removing tool from MCP server'', ''deleting tool file from storage''],
                           Inl e), w2)
                     | (Inr u, w2) \<Rightarrow>
                         (([''removing tool from MCP server'', ''deleting tool file from storage''],
                           Inr (''Successfully deleted saved query '' @ quoted toolName)), w2))))"

definition deleteSavedQuery_handler :: "collaborators \<Rightarrow> string \<Rightarrow> world \<Rightarrow> MCPResponse \<times> world" where
  "deleteSavedQuery_handler c toolName w =
     (case deleteSavedQuery_fn c toolName w of
        (r, w') \<Rightarrow> (withErrorHandling (''deleting tool '' @ quoted toolName) (finish r), w'))"

subsection \<open>Facts about the handlers\<close>

lemma perform_cases:
  assumes "perform c call effect w = (r, w')"
  obtains (failed) message where "fault c call = Some message" "r = Inl (Error message)"
      "w' = w\<lparr>calls := calls w @ [call]\<rparr>"
    | (succeeded) "fault c call = None" "r = Inr ()" "w' = effect (w\<lparr>calls := calls w @ [call]\<rparr>)"
  using assms by (cases "fault c call") (auto simp: perform_def Let_def)

lemma perform_files:
  assumes "perform c call effect w = (r, w')" and "\<And>v. files (effect v) = files v"
  shows "files w' = files w"
  using assms(1) by (cases rule: perform_cases) (simp_all add: assms(2))

lemma ensureDataDirectory_files:
  assumes "ensureDataDirectory c w = (r, w')"
  shows "files w' = files w"
proof -
  let ?first = "if dirs w = NoDataDir
            then perform c (MkdirSync DATA_DIR) (\<lambda>w. w\<lparr>dirs := DataDirOnly\<rparr>) w
            else (Inr (), w)"
  obtain r1 w1 where first: "?first = (r1, w1)" by (cases ?first)
  have f1: "files w1 = files w"
  proof (cases "dirs w = NoDataDir")
    case True
    with first have "perform c (MkdirSync DATA_DIR) (\<lambda>w. w\<lparr>dirs := DataDirOnly\<rparr>) w = (r1, w1)"
      by simp
    then show ?thesis by (rule perform_files) simp
  next
    case False
    with first show ?thesis by simp
  qed
  show ?thesis
  proof (cases r1)
    case (Inl e)
    with assms first f1 show ?thesis by (simp add: ensureDataDirectory_def)
  next
    case (Inr u)
    show ?thesis
    proof (cases "dirs w1 \<noteq> ToolsDirPresent")
      case True
      with assms first Inr
      have "perform c (MkdirSync TOOLS_DIR) (\<lambda>w. w\<lparr>dirs := ToolsDirPresent\<rparr>) w1 = (r, w')"
        by (simp add: ensureDataDirectory_def)
      then have "files w' = files w1" by (rule perform_files) simp
      with f1 show ?thesis by simp
    next
      case False
      with assms first Inr f1 show ?thesis by (simp add: ensureDataDirectory_def)
    qed
  qed
qed

lemma saveToolToFile_written:
  assumes "saveToolToFile c toolName config w = (Inr u, w')"
  shows "files w' (toolPath toolName) = Some (Document (stringified (configJson config)))"
proof -
  obtain r1 w1 where e: "ensureDataDirectory c w = (r1, w1)" by (cases "ensureDataDirectory c w")
  let ?effect = "\<lambda>w. w\<lparr>files := (files w)(toolPath toolName \<mapsto>
                                        Document (stringified (configJson config)))\<rparr>"
  obtain r2 w2 where p: "perform c (WriteFileSync (toolPath toolName)) ?effect w1 = (r2, w2)"
    by (cases "perform c (WriteFileSync (toolPath toolName)) ?effect w1")
  from assms e p have r: "\<exists>u. r1 = Inr u" "r2 = Inr ()" "w' = w2"
    by (auto simp: saveToolToFile_def split: sum.splits)
  from p r(2) have "w2 = ?effect (w1\<lparr>calls := calls w1 @ [WriteFileSync (toolPath toolName)]\<rparr>)"
    by (cases rule: perform_cases) simp_all
  with r(3) show ?thesis by simp
qed

lemma serverRegisterTool_files:
  assumes "serverRegisterTool c toolName entry w = (r, w')"
  shows "files w' = files w"
proof -
  let ?effect = "\<lambda>w. w\<lparr>serverTools := (serverTools w)(toolName \<mapsto> entry)\<rparr>"
  obtain r1 w1 where p: "perform c (RegisterTool toolName) ?effect w = (r1, w1)"
    by (cases "perform c (RegisterTool toolName) ?effect w")
  then have "files w1 = files w" by (rule perform_files) simp
  moreover from assms p have "w' = w1"
    by (auto simp: serverRegisterTool_def split: sum.splits)
  ultimately show ?thesis by simp
qed

lemma registerToolWithServer_files:
  assumes "registerToolWithServer c toolName config w = (r, w')"
  shows "files w' = files w"
proof (cases "createDynamicToolHandler c config")
  case (Inl e)
  with assms show ?thesis by (simp add: registerToolWithServer_def)
next
  case h: (Inr dynamicHandler)
  show ?thesis
  proof (cases "convertJsonSchemaToMcpZod (parameter_schema config)")
    case (Inl e)
    with assms h show ?thesis by (simp add: registerToolWithServer_def)
  next
    case s: (Inr schemaFields)
    let ?entry = "\<lparr>title = description config, toolDescription = description config,
                        inputSchema = schemaFields, callback = dynamicHandler\<rparr>"
    obtain r1 w1 where p: "serverRegisterTool c toolName ?entry w = (r1, w1)"
      by (cases "serverRegisterTool c toolName ?entry w")
    from serverRegisterTool_files[OF p] have "files w1 = files w" .
    moreover from assms h s p have "files w' = files w1"
      by (auto simp: registerToolWithServer_def split: sum.splits)
    ultimately show ?thesis by simp
  qed
qed

lemma toolUpdate_files: "toolUpdate c t entry w = (r, w') \<Longrightarrow> files w' = files w"
proof (cases t)
  case (RegisteredTool n)
  assume "toolUpdate c t entry w = (r, w')"
  with RegisteredTool
  have "perform c (UpdateTool n) (\<lambda>w. w\<lparr>serverTools := (serverTools w)(n \<mapsto> entry)\<rparr>) w = (r, w')"
    by simp
  then show ?thesis by (rule perform_files) simp
qed

lemma updateExistingTool_files:
  assumes "updateExistingTool c toolName config w = (r, w')"
  shows "files w' = files w"
proof (cases "registeredTools w toolName")
  case None
  with assms show ?thesis by (simp add: updateExistingTool_def)
next
  case t: (Some existingTool)
  show ?thesis
  proof (cases "createDynamicToolHandler c config")
    case (Inl e)
    with assms t show ?thesis by (simp add: updateExistingTool_def)
  next
    case h: (Inr dynamicHandler)
    show ?thesis
    proof (cases "convertJsonSchemaToMcpZod (parameter_schema config)")
      case (Inl e)
      with assms t h show ?thesis by (simp add: updateExistingTool_def)
    next
      case (Inr schemaFields)
      with assms t h show ?thesis
        by (simp add: updateExistingTool_def toolUpdate_files)
    qed
  qed
qed

definition derivedConfig :: "SaveQueryToolParams \<Rightarrow> SavedToolConfig" where
  "derivedConfig params =
     \<lparr>description = description params,
      sql_query = sql_query params,
      parameter_schema = parameter_schema params,
      name = tool_name params,
      sql_prepared = sql (parseNamedParameters (sql_query params)),
      parameter_order = parameterOrder (parseNamedParameters (sql_query params))\<rparr>"

lemma saveQuery_fn_success:
  assumes "saveQuery_fn c params w = ((msgs, Inr v), w')"
  shows "validateJsonSchema (ajv c) (parameter_schema params)
       \<and> files w' (toolPath (tool_name params))
           = Some (Document (stringified (configJson (derivedConfig params))))"
proof -
  let ?n = "tool_name params"
  let ?cfg = "derivedConfig params"
  let ?exists = "registeredTools w ?n \<noteq> None"
  let ?ow = "case overwrite params of Some b \<Rightarrow> b | None \<Rightarrow> False"
  have go: "\<not> (?exists \<and> \<not> ?ow)"
    using assms unfolding saveQuery_fn_def Let_def by (auto split: if_splits)
  have valid: "validateJsonSchema (ajv c) (parameter_schema params)"
    using assms go unfolding saveQuery_fn_def Let_def by (auto split: if_splits)
  obtain r1 w1 where saved: "saveToolToFile c ?n ?cfg w = (r1, w1)"
    by (cases "saveToolToFile c ?n ?cfg w")
  have body: "saveQuery_fn c params w =
      (case (r1, w1) of
         (Inl e, w1) \<Rightarrow> (([''validating parameter schema'', ''parsing SQL parameters'',
                          ''persisting tool to file''], Inl e), w1)
       | (Inr u, w1) \<Rightarrow>
           if \<not> ?exists
           then (case registerToolWithServer c ?n ?cfg w1 of
                   (Inl e, w2) \<Rightarrow>
                     (([''validating parameter schema'', ''parsing SQL parameters'',
                          ''persisting tool to file''] @ [''registering new tool in MCP server''], Inl e), w2)
                 | (Inr registeredTool, w2) \<Rightarrow>
                     (([''validating parameter schema'', ''parsing SQL parameters'',
                          ''persisting tool to file''] @ [''registering new tool in MCP server''],
                       Inr (''Successfully created tool '' @ quoted ?n
                            @ parameterSummary (extractNamedParameters (sql_query params)))), w2))
           else if ?exists \<and> ?ow
           then (case updateExistingTool c ?n ?cfg w1 of
                   (Inl e, w2) \<Rightarrow>
                     (([''validating parameter schema'', ''parsing SQL parameters'',
                          ''persisting tool to file''] @ [''updating existing tool in MCP server''], Inl e), w2)
                 | (Inr u, w2) \<Rightarrow>
                     (([''validating parameter schema'', ''parsing SQL parameters'',
                          ''persisting tool to file''] @ [''updating existing tool in MCP server''],
                       Inr (''Successfully updated tool '' @ quoted ?n
                            @ parameterSummary (extractNamedParameters (sql_query params)))), w2))
           else (([''validating parameter schema'', ''parsing SQL parameters'',
                          ''persisting tool to file''], Inl (Error ''Unexpected state in save_query handler'')), w1))"
    unfolding saveQuery_fn_def Let_def derivedConfig_def[symmetric] saved[symmetric]
    using go valid by (simp only: if_False if_True not_not simp_thms)
  from assms body obtain u where r1: "r1 = Inr u"
    by (cases r1) auto
  have "files w' = files w1"
  proof (cases ?exists)
    case False
    obtain r2 w2 where reg: "registerToolWithServer c ?n ?cfg w1 = (r2, w2)"
      by (cases "registerToolWithServer c ?n ?cfg w1")
    from assms body r1 False reg have "w' = w2" by (auto split: sum.splits)
    with registerToolWithServer_files[OF reg] show ?thesis by simp
  next
    case True
    with go have ow: ?ow by blast
    obtain r2 w2 where upd: "updateExistingTool c ?n ?cfg w1 = (r2, w2)"
      by (cases "updateExistingTool c ?n ?cfg w1")
    from assms body r1 True ow upd have "w' = w2" by (auto split: sum.splits)
    with updateExistingTool_files[OF upd] show ?thesis by simp
  qed
  with saveToolToFile_written[OF saved[unfolded r1]] valid show ?thesis by simp
qed

lemma stringified_strings:
  "map (\<lambda>x. if unserializable x then JNull else stringified x) (map JStr xs) = map JStr xs"
  by (induction xs) (auto simp: unserializable_def)

lemma typeofObject_stringified: "typeofObject v \<Longrightarrow> typeofObject (stringified v)"
  by (cases v) (auto simp: typeofObject_def)

lemma stringified_configJson:
  assumes "\<not> unserializable (parameter_schema config)"
  shows "stringified (configJson config) = JObj [
     (''name'', JStr (name config)),
     (''description'', JStr (description config)),
     (''sql_query'', JStr (sql_query config)),
     (''sql_prepared'', JStr (sql_prepared config)),
     (''parameter_schema'', stringified (parameter_schema config)),
     (''parameter_order'', JArr (map JStr (parameter_order config)))]"
  using assms by (simp add: configJson_def stringified_strings unserializable_def)

lemma load_after_write:
  assumes written: "files w (toolPath toolName) = Some (Document (stringified (configJson config)))"
    and schema: "typeofObject (parameter_schema config)"
    and nofault: "fault c (ReadFileSync (toolPath toolName)) = None"
  shows "loadToolFromFile c toolName w
           = (Inr (Some (config\<lparr>parameter_schema := stringified (parameter_schema config)\<rparr>)),
              w\<lparr>calls := calls w @ [ReadFileSync (toolPath toolName)]\<rparr>)"
proof -
  have nu: "\<not> unserializable (parameter_schema config)"
    using schema by (auto simp: typeofObject_def unserializable_def split: json.splits)
  note sj = stringified_configJson[OF nu]
  have strs: "list_all isString (map JStr xs)" for xs
    by (induction xs) (auto simp: isString_def)
  have valid: "isValidToolConfig (stringified (configJson config))"
    unfolding sj using typeofObject_stringified[OF schema]
    by (simp add: isValidToolConfig_def isString_def strs typeofObject_def)
  have as: "map (asString \<circ> JStr) xs = xs" for xs
    by (induction xs) (auto simp: asString_def)
  have conf: "asConfig (stringified (configJson config))
                = config\<lparr>parameter_schema := stringified (parameter_schema config)\<rparr>"
    unfolding sj by (cases config) (simp add: asConfig_def asString_def as)
  show ?thesis
    unfolding loadToolFromFile_def
    using written nofault valid conf
    by (simp add: perform_def Let_def)
qed

subsection \<open>Concrete collaborators and worlds\<close>

definition quietCollaborators :: collaborators where
  "quietCollaborators =
     \<lparr>ajv = ajvCompile passingChecks, jsonSchemaToZod = sampleGenerator,
      newFunction = sampleNewFunction, fault = (\<lambda>call. None),
      poolQuery = (\<lambda>text positional. Inr \<lparr>rows = [], rowCount = JNum 0, resultFields = []\<rparr>),
      JSON_stringify = (\<lambda>v. ''{}'')\<rparr>"

definition emptyWorld :: world where
  "emptyWorld = \<lparr>registeredTools = Map.empty, serverTools = Map.empty, dirs = NoDataDir,
                  files = Map.empty, calls = []\<rparr>"

definition getUserParams :: SaveQueryToolParams where
  "getUserParams =
     \<lparr>description = ''Find a user'',
      sql_query = ''SELECT * FROM users WHERE id = :user_id'',
      parameter_schema = userIdSchema,
      tool_name = ''get_user'',
      overwrite = None\<rparr>"

definition getUserWorld :: world where
  "getUserWorld = emptyWorld\<lparr>registeredTools := [''get_user'' \<mapsto> RegisteredTool ''get_user'']\<rparr>"

subsection \<open>Claims about the lifecycle\<close>

text \<open>
  C6. A \<open>save_query\<close> call without the overwrite flag for a name the registry already holds
  is rejected with the conflict message naming the tool, and leaves the world as it was: the
  registry map, the files and the list of calls made (no write, no registration) are
  unchanged.
\<close>

theorem saveQuery_conflict_untouched:
  assumes "registeredTools w (tool_name params) \<noteq> None" and "overwrite params \<noteq> Some True"
  shows "saveQuery_handler c params w =
           (\<lparr>content = [''Error saving tool '' @ quoted (tool_name params) @ '': Tool with name ''
                          @ quoted (tool_name params)
                          @ '' already exists. Set overwrite=true to update it.''],
             isError = Some True\<rparr>, w)"
proof -
  have "(case overwrite params of Some b \<Rightarrow> b | None \<Rightarrow> False) = False"
    using assms(2) by (cases "overwrite params") auto
  with assms(1) have "saveQuery_fn c params w =
      (([], Inl (Error (''Tool with name '' @ quoted (tool_name params)
                                @ '' already exists. Set overwrite=true to update it.''))), w)"
    unfolding saveQuery_fn_def Let_def by simp
  then show ?thesis
    by (simp add: saveQuery_handler_def settle_def withErrorHandling_def createErrorResponse_def
        stageAfter_def errorMessage_def)
qed

theorem saveQuery_conflict_untouched_witness:
  "registeredTools getUserWorld (tool_name getUserParams) \<noteq> None
   \<and> overwrite getUserParams \<noteq> Some True
   \<and> snd (saveQuery_handler quietCollaborators getUserParams getUserWorld) = getUserWorld
   \<and> isError (fst (saveQuery_handler quietCollaborators getUserParams getUserWorld)) = Some True"
proof -
  have 1: "registeredTools getUserWorld (tool_name getUserParams) \<noteq> None"
    by (simp add: getUserWorld_def getUserParams_def emptyWorld_def)
  have 2: "overwrite getUserParams \<noteq> Some True"
    by (simp add: getUserParams_def)
  from saveQuery_conflict_untouched[OF 1 2, of quietCollaborators] 1 2 show ?thesis by simp
qed

text \<open>
  C7. For every protected name, \<open>delete_saved_query\<close> is rejected whatever the registry
  holds, and the world is left as it was: no \<open>remove\<close> on a handle, no change of the registry
  map, no file deleted, no call recorded.
\<close>

theorem deleteSavedQuery_protected:
  assumes "toolName \<in> PROTECTED_TOOLS"
  shows "deleteSavedQuery_handler c toolName w =
           (\<lparr>content = [''Error deleting tool '' @ quoted toolName @ '': Cannot delete core tool ''
                          @ quoted toolName],
             isError = Some True\<rparr>, w)"
proof -
  have "deleteSavedQuery_fn c toolName w
          = (([], Inl (Error (''Cannot delete core tool '' @ quoted toolName))), w)"
    unfolding deleteSavedQuery_fn_def using assms by (rule if_P)
  then show ?thesis
    by (simp add: deleteSavedQuery_handler_def finish_def withErrorHandling_def
        createErrorResponse_def stageAfter_def errorMessage_def)
qed

definition shadowedWorld :: world where
  "shadowedWorld = emptyWorld\<lparr>registeredTools := [''list_tables'' \<mapsto> RegisteredTool ''list_tables''],
                              files := [toolPath ''list_tables'' \<mapsto> Malformed ''x'']\<rparr>"

theorem deleteSavedQuery_protected_witness:
  "''list_tables'' \<in> PROTECTED_TOOLS
   \<and> registeredTools shadowedWorld ''list_tables'' \<noteq> None
   \<and> deleteSavedQuery_handler quietCollaborators ''list_tables'' shadowedWorld =
        (\<lparr>content = [''Error deleting tool '' @ quoted ''list_tables''
                        @ '': Cannot delete core tool '' @ quoted ''list_tables''],
          isError = Some True\<rparr>, shadowedWorld)
   \<and> calls (snd (deleteSavedQuery_handler quietCollaborators ''list_tables'' shadowedWorld)) = []"
proof -
  have p: "''list_tables'' \<in> PROTECTED_TOOLS" by (simp add: PROTECTED_TOOLS_def)
  have r: "registeredTools shadowedWorld ''list_tables'' \<noteq> None"
    by (simp add: shadowedWorld_def emptyWorld_def)
  have c: "calls shadowedWorld = []" by (simp add: shadowedWorld_def emptyWorld_def)
  note h = deleteSavedQuery_protected[OF p, of quietCollaborators shadowedWorld]
  have "calls (snd (deleteSavedQuery_handler quietCollaborators ''list_tables'' shadowedWorld)) = []"
    unfolding h using c by simp
  with p r h show ?thesis by (simp only: simp_thms)
qed

text \<open>
  C8. After a \<open>save_query\<close> call that succeeds, loading the tool by name (the read not
  failing) yields a definition with the saved name and template whose \<open>sql_prepared\<close> and
  \<open>parameter_order\<close> are what \<open>parseNamedParameters\<close> produces from its \<open>sql_query\<close>.
\<close>

theorem save_then_load_rederivable:
  assumes "saveQuery_handler c params w = (response, w')" and "isError response = None"
    and "fault c' (ReadFileSync (toolPath (tool_name params))) = None"
  shows "\<exists>config w''. loadToolFromFile c' (tool_name params) w' = (Inr (Some config), w'')
           \<and> name config = tool_name params
           \<and> sql_query config = sql_query params
           \<and> sql_prepared config = sql (parseNamedParameters (sql_query config))
           \<and> parameter_order config = parameterOrder (parseNamedParameters (sql_query config))"
proof -
  obtain msgs outcome where fn: "saveQuery_fn c params w = ((msgs, outcome), w')"
    using assms(1) by (cases "saveQuery_fn c params w") (auto simp: saveQuery_handler_def)
  from assms(1,2) fn obtain v where "outcome = Inr v"
    by (cases outcome)
       (auto simp: saveQuery_handler_def settle_def withErrorHandling_def createErrorResponse_def)
  with fn have ok: "saveQuery_fn c params w = ((msgs, Inr v), w')" by simp
  from saveQuery_fn_success[OF ok]
  have valid: "validateJsonSchema (ajv c) (parameter_schema params)"
    and written: "files w' (toolPath (tool_name params))
           = Some (Document (stringified (configJson (derivedConfig params))))"
    by blast+
  from valid have "typeofObject (parameter_schema (derivedConfig params))"
    by (auto simp: validateJsonSchema_def derivedConfig_def split: if_splits)
  from load_after_write[OF written this assms(3)] show ?thesis
    by (simp add: derivedConfig_def)
qed

theorem save_then_load_rederivable_witness:
  "isError (fst (saveQuery_handler quietCollaborators getUserParams emptyWorld)) = None
   \<and> fault quietCollaborators (ReadFileSync (toolPath (tool_name getUserParams))) = None
   \<and> (\<exists>config w''. loadToolFromFile quietCollaborators ''get_user''
                       (snd (saveQuery_handler quietCollaborators getUserParams emptyWorld))
                     = (Inr (Some config), w'')
          \<and> sql_query config = ''SELECT * FROM users WHERE id = :user_id''
          \<and> sql_prepared config = sql (parseNamedParameters (sql_query config))
          \<and> parameter_order config = parameterOrder (parseNamedParameters (sql_query config)))"
proof -
  have valid: "validateJsonSchema (ajvCompile passingChecks) userIdSchema"
    by (simp add: validateJsonSchema_def ajvCompile_def passingChecks_def userIdSchema_def
        typeofObject_def jsonSchemaTypeNames_def declaredSubschemas_def)
  have conv: "convertJsonSchemaToZod sampleGenerator sampleNewFunction userIdSchema
                = Inr (ZObject [(''user_id'', ZInt)])"
    "convertJsonSchemaToMcpZod userIdSchema = Inr [(''user_id'', ZInt)]"
    by (simp add: convert_samples, simp add: convertJsonSchemaToMcpZod_def userIdSchema_def convert_simps)
  have ok: "isError (fst (saveQuery_handler quietCollaborators getUserParams emptyWorld)) = None"
    using valid conv
    by (simp add: saveQuery_handler_def saveQuery_fn_def getUserParams_def quietCollaborators_def
        emptyWorld_def saveToolToFile_def ensureDataDirectory_def perform_def Let_def
        registerToolWithServer_def createDynamicToolHandler_def serverRegisterTool_def
        settle_def withErrorHandling_def createSuccessResponse_def)
  have nf: "fault quietCollaborators (ReadFileSync (toolPath (tool_name getUserParams))) = None"
    by (simp add: quietCollaborators_def)
  have n: "tool_name getUserParams = ''get_user''"
    and q: "sql_query getUserParams = ''SELECT * FROM users WHERE id = :user_id''"
    by (simp_all add: getUserParams_def)
  from save_then_load_rederivable[OF surjective_pairing ok nf] ok nf show ?thesis
    unfolding n q by blast
qed

section \<open>Executing queries (tools/executeSqlQuery.ts, src/dynamicToolHandler.ts)\<close>

text \<open>
  \<open>mapToPositional\<close>: \<open>params[name]\<close> for each name of the order. Reading a property of
  \<open>null\<close> or \<open>undefined\<close> throws.
\<close>

definition mapToPositional :: "json \<Rightarrow> string list \<Rightarrow> thrown + json list" where
  "mapToPositional params names =
     (if names \<noteq> [] \<and> nullish params then Inl (cannotRead params (hd names))
      else Inr (map (\<lambda>name. getProp params name) names))"

definition typeNamesQuery :: string where
  "typeNamesQuery = [CHR 0x0A] @ ''    SELECT oid, typname'' @ [CHR 0x0A]
     @ ''    FROM pg_type'' @ [CHR 0x0A]
     @ ''    WHERE oid = ANY($1::oid[])'' @ [CHR 0x0A] @ ''  ''"

text \<open>\<open>getTypeNames\<close> (src/schemaService.ts): a \<open>Map\<close> from type identifier to type name.\<close>

definition getTypeNames :: "collaborators \<Rightarrow> json list \<Rightarrow> thrown + (json \<rightharpoonup> json)" where
  "getTypeNames c oids =
     (if length oids = 0 then Inr Map.empty
      else case poolQuery c typeNamesQuery [JArr oids] of
             Inl e \<Rightarrow> Inl e
           | Inr result \<Rightarrow>
               Inr (fold (\<lambda>row typeMap. typeMap(getProp row ''oid'' \<mapsto> getProp row ''typname''))
                      (rows result) Map.empty))"

text \<open>The handler of \<open>execute_sql_query\<close>: the function it passes to \<open>withErrorHandling\<close>.\<close>

definition executeSqlQuery_fn :: "collaborators \<Rightarrow> string \<Rightarrow> json \<Rightarrow> string list \<times> (thrown + string)" where
  "executeSqlQuery_fn c query params =
     (let mapping = parseNamedParameters query
      in case mapToPositional (if nullish params then JObj [] else params) (parameterOrder mapping) of
           Inl e \<Rightarrow> ([''parsing parameters''], Inl e)
         | Inr positionalParams \<Rightarrow>
             (case poolQuery c (sql mapping) positionalParams of
                Inl e \<Rightarrow> ([''parsing parameters'', ''executing query''], Inl e)
              | Inr result \<Rightarrow>
                  (case getTypeNames c (map (\<lambda>f. getProp f ''dataTypeID'') (resultFields result)) of
                     Inl e \<Rightarrow>
                       ([''parsing parameters'', ''executing query'', ''resolving type names''], Inl e)
                   | Inr typeNames \<Rightarrow>
                       ([''parsing parameters'', ''executing query'', ''resolving type names''],
                        Inr (JSON_stringify c (JObj [
                          (''rows'', JArr (rows result)),
                          (''rowCount'', rowCount result),
                          (''fields'', JArr (map (\<lambda>f. JObj [
                              (''name'', getProp f ''name''),
                              (''dataType'',
                                 (case typeNames (getProp f ''dataTypeID'') of
                                    None \<Rightarrow> JStr ''unknown''
                                  | Some n \<Rightarrow> if nullish n then JStr ''unknown'' else n)),
                              (''dataTypeID'', getProp f ''dataTypeID'')])
                            (resultFields result)))]))))))"

definition executeSqlQuery_handler :: "collaborators \<Rightarrow> string \<Rightarrow> json \<Rightarrow> MCPResponse" where
  "executeSqlQuery_handler c query params =
     withErrorHandling ''executing SQL query'' (settle (executeSqlQuery_fn c query params))"

text \<open>Calling a dynamic handler: the function it passes to \<open>withErrorHandling\<close>.\<close>

definition dynamicTool_fn :: "collaborators \<Rightarrow> dynamicToolHandler \<Rightarrow> json \<Rightarrow> string list \<times> (thrown + string)" where
  "dynamicTool_fn c h params =
     (case zparse (paramSchema h) params of
        Inl issues \<Rightarrow>
          ([''validating parameters''],
           Inl (Error (''Parameter validation error: ''
                  @ join '', '' (map (\<lambda>(path, message). join ''.'' path @ '': '' @ message) issues))))
      | Inr validatedParams \<Rightarrow>
          (case mapToPositional validatedParams (parameter_order (toolConfig h)) of
             Inl e \<Rightarrow> ([''validating parameters'', ''executing SQL query''], Inl e)
           | Inr positionalParams \<Rightarrow>
               (case poolQuery c (sql_prepared (toolConfig h)) positionalParams of
                  Inl e \<Rightarrow> ([''validating parameters'', ''executing SQL query''], Inl e)
                | Inr result \<Rightarrow>
                    (case getTypeNames c (map (\<lambda>f. getProp f ''dataTypeID'') (resultFields result)) of
                       Inl e \<Rightarrow>
                         ([''validating parameters'', ''executing SQL query'', ''resolving type names''],
                          Inl e)
                     | Inr typeNames \<Rightarrow>
                         ([''validating parameters'', ''executing SQL query'', ''resolving type names''],
                          Inr (JSON_stringify c (JObj [
                            (''rows'', JArr (rows result)),
                            (''rowCount'', rowCount result),
                            (''fields'', JArr (map (\<lambda>f. JObj [
                                (''name'', getProp f ''name''),
                                (''dataType'',
                                   (case typeNames (getProp f ''dataTypeID'') of
                                      None \<Rightarrow> JStr ''unknown''
                                    | Some n \<Rightarrow> if nullish n then JStr ''unknown'' else n)),
                                (''dataTypeID'', getProp f ''dataTypeID'')])
                              (resultFields result)))])))))))"

definition dynamicTool_handler :: "collaborators \<Rightarrow> dynamicToolHandler \<Rightarrow> json \<Rightarrow> MCPResponse" where
  "dynamicTool_handler c h params =
     withErrorHandling (''executing tool '' @ quoted (name (toolConfig h)))
       (settle (dynamicTool_fn c h params))"

subsection \<open>Claims about query execution\<close>

definition getUserHandler :: dynamicToolHandler where
  "getUserHandler = \<lparr>toolConfig = derivedConfig getUserParams,
                      paramSchema = ZObject [(''user_id'', ZInt)]\<rparr>"

lemma getUserHandler_created:
  "createDynamicToolHandler quietCollaborators (derivedConfig getUserParams) = Inr getUserHandler"
  by (simp add: createDynamicToolHandler_def quietCollaborators_def derivedConfig_def
      getUserParams_def getUserHandler_def convert_samples)

text \<open>
  C4 as stated fails: ad-hoc execution has no validation step. For the saved definition of
  \<open>get_user\<close> and the input \<open>{user_id: "abc"}\<close> the dynamic handler answers with a validation
  error, while ad-hoc execution of the same query text with the same parameters runs the
  query and succeeds.
\<close>

theorem adhoc_vs_dynamic_counterexample:
  "createDynamicToolHandler quietCollaborators (derivedConfig getUserParams) = Inr getUserHandler
   \<and> dynamicTool_handler quietCollaborators getUserHandler (JObj [(''user_id'', JStr ''abc'')])
       = \<lparr>content = [''Error executing tool '' @ quoted ''get_user''
            @ '' while validating parameters: Parameter validation error: ''
            @ ''user_id: Expected number, received string''],
          isError = Some True\<rparr>
   \<and> executeSqlQuery_handler quietCollaborators (sql_query (derivedConfig getUserParams))
         (JObj [(''user_id'', JStr ''abc'')])
       = \<lparr>content = [''{}''], isError = None\<rparr>"
proof -
  have d: "dynamicTool_fn quietCollaborators getUserHandler (JObj [(''user_id'', JStr ''abc'')])
      = ([''validating parameters''],
         Inl (Error (''Parameter validation error: user_id: Expected number, received string'')))"
    by (simp add: dynamicTool_fn_def getUserHandler_def zparse_def issuesOf_def invalidType_def
        parsedType_def)
  have e: "executeSqlQuery_fn quietCollaborators (sql_query (derivedConfig getUserParams))
         (JObj [(''user_id'', JStr ''abc'')])
      = ([''parsing parameters'', ''executing query'', ''resolving type names''], Inr ''{}'')"
    by (simp add: executeSqlQuery_fn_def Let_def mapToPositional_def nullish_def
        quietCollaborators_def getTypeNames_def)
  have n: "name (toolConfig getUserHandler) = ''get_user''"
    by (simp add: getUserHandler_def derivedConfig_def getUserParams_def)
  show ?thesis
    using getUserHandler_created
    by (simp add: dynamicTool_handler_def executeSqlQuery_handler_def d e n settle_def
        withErrorHandling_def createErrorResponse_def createSuccessResponse_def stageAfter_def
        errorMessage_def)
qed

lemma shared_execution:
  assumes "sql_prepared (toolConfig h) = sql (parseNamedParameters query)"
    and "parameter_order (toolConfig h) = parameterOrder (parseNamedParameters query)"
    and "zparse (paramSchema h) params = Inr validated" and "\<not> nullish validated"
  shows "\<exists>outcome.
           (dynamicTool_fn c h params = ([''validating parameters'', ''executing SQL query''], outcome)
            \<and> executeSqlQuery_fn c query validated = ([''parsing parameters'', ''executing query''], outcome)
            \<and> (\<exists>e. outcome = Inl e))
         \<or> (dynamicTool_fn c h params
               = ([''validating parameters'', ''executing SQL query'', ''resolving type names''], outcome)
            \<and> executeSqlQuery_fn c query validated
               = ([''parsing parameters'', ''executing query'', ''resolving type names''], outcome))"
proof -
  let ?order = "parameterOrder (parseNamedParameters query)"
  let ?positional = "map (\<lambda>name. getProp validated name) ?order"
  have m: "mapToPositional validated ?order = Inr ?positional"
    using assms(4) by (simp add: mapToPositional_def)
  show ?thesis
  proof (cases "poolQuery c (sql (parseNamedParameters query)) ?positional")
    case (Inl e)
    then show ?thesis
      using assms m by (simp add: dynamicTool_fn_def executeSqlQuery_fn_def Let_def)
  next
    case r: (Inr result)
    show ?thesis
    proof (cases "getTypeNames c (map (\<lambda>f. getProp f ''dataTypeID'') (resultFields result))")
      case (Inl e)
      then show ?thesis
        using assms m r by (simp add: dynamicTool_fn_def executeSqlQuery_fn_def Let_def)
    next
      case (Inr typeNames)
      then show ?thesis
        using assms m r by (simp add: dynamicTool_fn_def executeSqlQuery_fn_def Let_def)
    qed
  qed
qed

text \<open>
  C4 (as amended). Ad-hoc execution and a dynamic handler share the steps after validation.
  For a definition whose \<open>sql_prepared\<close> and \<open>parameter_order\<close> are what
  \<open>parseNamedParameters\<close> yields for the query text, and an input the definition's validator
  accepts with coerced value \<open>validated\<close>, the dynamic handler on the input ends as ad-hoc
  execution of the query text with parameters \<open>validated\<close> does: the same error thrown or the
  same result text. So both responses carry the same error flag; a success response is the
  same; an error response differs only in the operation description and in the stage label
  (\<open>executing SQL query\<close> against \<open>executing query\<close>). Ad-hoc execution has no validation
  step: for an input the validator rejects, the dynamic handler answers with the validation
  error that lists every issue.
\<close>

theorem adhoc_and_dynamic_share_execution:
  assumes "sql_prepared (toolConfig h) = sql (parseNamedParameters query)"
    and "parameter_order (toolConfig h) = parameterOrder (parseNamedParameters query)"
  shows "(zparse (paramSchema h) params = Inr validated \<and> \<not> nullish validated \<longrightarrow>
            snd (dynamicTool_fn c h params) = snd (executeSqlQuery_fn c query validated)
          \<and> isError (dynamicTool_handler c h params)
              = isError (executeSqlQuery_handler c query validated)
          \<and> (isError (executeSqlQuery_handler c query validated) = None \<longrightarrow>
                dynamicTool_handler c h params = executeSqlQuery_handler c query validated)
          \<and> (\<forall>e. snd (executeSqlQuery_fn c query validated) = Inl e \<longrightarrow>
                (\<exists>stage \<in> {(''executing SQL query'', ''executing query''),
                             (''resolving type names'', ''resolving type names'')}.
                   content (dynamicTool_handler c h params)
                     = [''Error executing tool '' @ quoted (name (toolConfig h)) @ '' while ''
                          @ fst stage @ '': '' @ errorMessage e]
                 \<and> content (executeSqlQuery_handler c query validated)
                     = [''Error executing SQL query while '' @ snd stage @ '': ''
                          @ errorMessage e])))
       \<and> (zparse (paramSchema h) params = Inl issues \<longrightarrow>
            dynamicTool_handler c h params
              = \<lparr>content = [''Error executing tool '' @ quoted (name (toolConfig h))
                     @ '' while validating parameters: Parameter validation error: ''
                     @ join '', '' (map (\<lambda>(path, message). join ''.'' path @ '': '' @ message) issues)],
                 isError = Some True\<rparr>)"
proof -
  note defs = dynamicTool_handler_def executeSqlQuery_handler_def settle_def
    withErrorHandling_def createErrorResponse_def createSuccessResponse_def stageAfter_def
  have 1: "snd (dynamicTool_fn c h params) = snd (executeSqlQuery_fn c query validated)
          \<and> isError (dynamicTool_handler c h params)
              = isError (executeSqlQuery_handler c query validated)
          \<and> (isError (executeSqlQuery_handler c query validated) = None \<longrightarrow>
                dynamicTool_handler c h params = executeSqlQuery_handler c query validated)
          \<and> (\<forall>e. snd (executeSqlQuery_fn c query validated) = Inl e \<longrightarrow>
                (\<exists>stage \<in> {(''executing SQL query'', ''executing query''),
                             (''resolving type names'', ''resolving type names'')}.
                   content (dynamicTool_handler c h params)
                     = [''Error executing tool '' @ quoted (name (toolConfig h)) @ '' while ''
                          @ fst stage @ '': '' @ errorMessage e]
                 \<and> content (executeSqlQuery_handler c query validated)
                     = [''Error executing SQL query while '' @ snd stage @ '': ''
                          @ errorMessage e]))"
    if v: "zparse (paramSchema h) params = Inr validated" "\<not> nullish validated"
  proof -
    from shared_execution[OF assms v, of c] obtain outcome where
      "(dynamicTool_fn c h params = ([''validating parameters'', ''executing SQL query''], outcome)
            \<and> executeSqlQuery_fn c query validated = ([''parsing parameters'', ''executing query''], outcome)
            \<and> (\<exists>e. outcome = Inl e))
         \<or> (dynamicTool_fn c h params
               = ([''validating parameters'', ''executing SQL query'', ''resolving type names''], outcome)
            \<and> executeSqlQuery_fn c query validated
               = ([''parsing parameters'', ''executing query'', ''resolving type names''], outcome))"
      by blast
    then show ?thesis
    proof (elim disjE conjE exE)
      fix e
      assume d: "dynamicTool_fn c h params = ([''validating parameters'', ''executing SQL query''], outcome)"
        and x: "executeSqlQuery_fn c query validated = ([''parsing parameters'', ''executing query''], outcome)"
        and o: "outcome = Inl e"
      show ?thesis
        by (simp add: defs d x o)
    next
      assume d: "dynamicTool_fn c h params
               = ([''validating parameters'', ''executing SQL query'', ''resolving type names''], outcome)"
        and x: "executeSqlQuery_fn c query validated
               = ([''parsing parameters'', ''executing query'', ''resolving type names''], outcome)"
      show ?thesis
        by (cases outcome) (simp_all add: defs d x)
    qed
  qed
  have 2: "dynamicTool_handler c h params
              = \<lparr>content = [''Error executing tool '' @ quoted (name (toolConfig h))
                     @ '' while validating parameters: Parameter validation error: ''
                     @ join '', '' (map (\<lambda>(path, message). join ''.'' path @ '': '' @ message) issues)],
                 isError = Some True\<rparr>"
    if "zparse (paramSchema h) params = Inl issues"
    using that by (simp add: defs dynamicTool_fn_def errorMessage_def)
  from 1 2 show ?thesis by blast
qed

theorem adhoc_and_dynamic_share_execution_witness:
  "sql_prepared (toolConfig getUserHandler)
     = sql (parseNamedParameters ''SELECT * FROM users WHERE id = :user_id'')
   \<and> zparse (paramSchema getUserHandler) (JObj [(''user_id'', JNum 7), (''extra'', JNull)])
       = Inr (JObj [(''user_id'', JNum 7)])
   \<and> dynamicTool_handler quietCollaborators getUserHandler
         (JObj [(''user_id'', JNum 7), (''extra'', JNull)])
       = executeSqlQuery_handler quietCollaborators ''SELECT * FROM users WHERE id = :user_id''
           (JObj [(''user_id'', JNum 7)])
   \<and> isError (executeSqlQuery_handler quietCollaborators ''SELECT * FROM users WHERE id = :user_id''
           (JObj [(''user_id'', JNum 7)])) = None
   \<and> zparse (paramSchema getUserHandler) (JObj []) = Inl [([''user_id''], ''Required'')]
   \<and> dynamicTool_handler quietCollaborators getUserHandler (JObj [])
       = \<lparr>content = [''Error executing tool '' @ quoted ''get_user''
            @ '' while validating parameters: Parameter validation error: user_id: Required''],
          isError = Some True\<rparr>"
proof -
  let ?q = "''SELECT * FROM users WHERE id = :user_id''"
  let ?in = "JObj [(''user_id'', JNum 7), (''extra'', JNull)]"
  let ?v = "JObj [(''user_id'', JNum 7)]"
  have a1: "sql_prepared (toolConfig getUserHandler) = sql (parseNamedParameters ?q)"
    and a2: "parameter_order (toolConfig getUserHandler) = parameterOrder (parseNamedParameters ?q)"
    and n: "name (toolConfig getUserHandler) = ''get_user''"
    by (simp_all add: getUserHandler_def derivedConfig_def getUserParams_def)
  have z: "zparse (paramSchema getUserHandler) ?in = Inr ?v"
    by (simp add: getUserHandler_def zparse_def issuesOf_def outputsOf_def isInteger_def)
  have z0: "zparse (paramSchema getUserHandler) (JObj []) = Inl [([''user_id''], ''Required'')]"
    by (simp add: getUserHandler_def zparse_def issuesOf_def invalidType_def inheritedProp_def
        objectPrototypeKeys_def)
  have nn: "\<not> nullish ?v" by (simp add: nullish_def)
  have ok: "isError (executeSqlQuery_handler quietCollaborators ?q ?v) = None"
    by (simp add: executeSqlQuery_handler_def executeSqlQuery_fn_def Let_def mapToPositional_def
        nullish_def quietCollaborators_def getTypeNames_def settle_def withErrorHandling_def
        createSuccessResponse_def)
  note t = adhoc_and_dynamic_share_execution[OF a1 a2]
  from t[of ?in ?v quietCollaborators] z nn ok
  have eq: "dynamicTool_handler quietCollaborators getUserHandler ?in
       = executeSqlQuery_handler quietCollaborators ?q ?v"
    by blast
  from t[of "JObj []" _ _ "[([''user_id''], ''Required'')]"] z0
  have "dynamicTool_handler quietCollaborators getUserHandler (JObj [])
       = \<lparr>content = [''Error executing tool '' @ quoted (name (toolConfig getUserHandler))
                     @ '' while validating parameters: Parameter validation error: ''
                     @ join '', '' (map (\<lambda>(path, message). join ''.'' path @ '': '' @ message)
                         [([''user_id''], ''Required'')])],
                 isError = Some True\<rparr>"
    by blast
  then have er: "dynamicTool_handler quietCollaborators getUserHandler (JObj [])
       = \<lparr>content = [''Error executing tool '' @ quoted ''get_user''
            @ '' while validating parameters: Parameter validation error: user_id: Required''],
          isError = Some True\<rparr>"
    by (simp add: n)
  from a1 z eq ok z0 er show ?thesis by (simp only: simp_thms)
qed

end
